theory Spec2Isabelle
  imports Main "HOL-Library.Word" "HOL-Library.AList" "HOL-Library.Multiset" "HOL-Library.Sublist"
begin

section \<open>The debug-information command line tool: data\<close>

text \<open>
  The program is one Go file, \<^verbatim>\<open>main.go\<close>. Its function \<^verbatim>\<open>run\<close> selects one of four
  commands (upload, extract, buildid, source); \<^verbatim>\<open>extractAll\<close>, \<^verbatim>\<open>grpcConn\<close>,
  \<^verbatim>\<open>uploadViaSignedURL\<close> and \<^verbatim>\<open>debuginfoTypeStringToPb\<close> are its helpers.

  Everything outside the file (the file system, the ELF and DWARF readers, the reducer,
  the hash, the store reached over gRPC, the HTTP client) is a field of the record
  \<open>env\<close>. Each such field answers one call; it is given the log of every call made so
  far, so an answer may depend on what happened before (a store that refuses a second
  upload of a build ID, a file that has disappeared meanwhile). The log is the trace of
  the run, and the theorems below are statements about it.
\<close>

type_synonym byte = "8 word"

subsection \<open>Values of the generated protocol package\<close>

text \<open>
  The protocol enums are generated Go integers. The three named constants of each are
  constructors here; any other number a store may send as a strategy is
  \<open>UPLOAD_STRATEGY_unrecognized\<close>.
\<close>

datatype DebuginfoType =
    DEBUGINFO_TYPE_DEBUGINFO_UNSPECIFIED
  | DEBUGINFO_TYPE_EXECUTABLE
  | DEBUGINFO_TYPE_SOURCES

datatype UploadStrategy =
    UPLOAD_STRATEGY_UNSPECIFIED
  | UPLOAD_STRATEGY_GRPC
  | UPLOAD_STRATEGY_SIGNED_URL
  | UPLOAD_STRATEGY_unrecognized int

record ShouldInitiateUploadRequest =
  sreq_BuildId :: string
  sreq_Force :: bool
  sreq_Type :: DebuginfoType

record ShouldInitiateUploadResponse =
  sresp_ShouldInitiateUpload :: bool
  sresp_Reason :: string

record InitiateUploadRequest =
  ireq_BuildId :: string
  ireq_Hash :: string
  ireq_Size :: int
  ireq_Force :: bool
  ireq_Type :: DebuginfoType

record UploadInstructions =
  ui_BuildId :: string
  ui_UploadId :: string
  ui_UploadStrategy :: UploadStrategy
  ui_SignedUrl :: string
  ui_Type :: DebuginfoType

text \<open>
  The field \<^verbatim>\<open>UploadInstructions\<close> of the response is a pointer: a response may carry
  none.
\<close>

record InitiateUploadResponse =
  iresp_UploadInstructions :: "UploadInstructions option"

record MarkUploadFinishedRequest =
  mreq_BuildId :: string
  mreq_UploadId :: string
  mreq_Type :: DebuginfoType

subsection \<open>Errors and messages\<close>

text \<open>
  A formatted message is kept as its format string and its operands, in order. An error
  is built the way the program builds it: \<^verbatim>\<open>errors.New\<close>, \<^verbatim>\<open>fmt.Errorf\<close> (with the
  operand of \<^verbatim>\<open>%w\<close>, always the last one in this program, kept apart),
  \<^verbatim>\<open>errors.Join\<close>, or a value handed back by a collaborator. Dereferencing a nil
  pointer does not return an error, it stops the process: \<open>runtime_panic\<close>.
\<close>

datatype fmtarg =
    ArgStr string
  | ArgInt int
  | ArgStrategy UploadStrategy
  | ArgType DebuginfoType

datatype error =
    External string
  | New string
  | Errorf string "fmtarg list" "error option"
  | joinError "error list"
  | runtime_panic string

text \<open>
  \<^verbatim>\<open>errors.Join\<close> drops the nil operands; it returns nil when none is left and one
  error wrapping the others (not flattened) otherwise.
\<close>

definition errors_Join :: "error option list \<Rightarrow> error option" where
  "errors_Join errs =
     (let es = List.map_filter (\<lambda>e. e) errs
      in if es = [] then None else Some (joinError es))"

subsection \<open>The log of calls\<close>

text \<open>
  One event per call that leaves the program, with its operands and, where a later
  decision depends on it, its answer. A transmission event carries the bytes the
  transport is given: those of the stream from its current offset to its end.
\<close>

datatype event =
    Call_os_ReadFile string "error option"
  | Call_grpc_Dial string "error option"
  | Call_elf_Open string "error option"
  | Call_buildid_FromELF string "error + string"
  | Call_os_Open string "error option"
  | Call_Stat string "error + int"
  | Call_os_RemoveAll string "error option"
  | Call_os_MkdirAll string "error option"
  | Call_os_Create string "error option"
  | Call_extractFn string string nat "error option"
  | Print_Stderr string "fmtarg list" "error option"
  | Print_Stdout string "fmtarg list"
  | Call_ShouldInitiateUpload ShouldInitiateUploadRequest "error + ShouldInitiateUploadResponse"
  | Call_hash_Reader "byte list" "error + string"
  | Call_Seek nat "error option"
  | Call_InitiateUpload InitiateUploadRequest "error + InitiateUploadResponse"
  | Call_grpc_Upload UploadInstructions "byte list" "error option"
  | Call_http_Do string string "byte list" "error + int"
  | Call_MarkUploadFinished MarkUploadFinishedRequest "error option"
  | Call_zstd_NewWriter "error option"
  | Call_elf_DWARF string "error option"
  | Call_tar_WriteHeader string int "error option"
  | Call_io_Copy string "byte list" "error option"
  | Call_Close string "error option"

subsection \<open>Streams and the store they live in\<close>

text \<open>
  A \<^verbatim>\<open>flexbuf.Buffer\<close> and an open file are both a byte sequence with a current
  offset. They are reached through pointers (the map \<^verbatim>\<open>srcDst\<close> and the list
  \<^verbatim>\<open>uploads\<close> share the buffers), so they live in a store indexed by address. The
  content of a file is taken when it is opened; the model has no other process writing to
  it during the run. A stream can be closed: \<^verbatim>\<open>Close\<close> on a \<^verbatim>\<open>flexbuf.Buffer\<close> empties
  it and sets its offset to 0, \<^verbatim>\<open>Close\<close> on a file ends the use of the handle.
\<close>

record stream =
  s_bytes :: "byte list"
  s_off :: nat
  s_closed :: bool

record state =
  trace :: "event list"
  heap :: "nat \<Rightarrow> stream"
  next_addr :: nat

definition emit :: "event \<Rightarrow> state \<Rightarrow> state" where
  "emit ev st = st\<lparr>trace := trace st @ [ev]\<rparr>"

definition alloc :: "byte list \<Rightarrow> state \<Rightarrow> nat \<times> state" where
  "alloc bs st =
     (next_addr st,
      st\<lparr>heap := (heap st)(next_addr st := \<lparr>s_bytes = bs, s_off = 0, s_closed = False\<rparr>),
         next_addr := Suc (next_addr st)\<rparr>)"

text \<open>The bytes a reader of the stream at address \<open>a\<close> gets: from the offset to the end.\<close>

definition remaining :: "state \<Rightarrow> nat \<Rightarrow> byte list" where
  "remaining st a = drop (s_off (heap st a)) (s_bytes (heap st a))"

definition read_to_end :: "nat \<Rightarrow> state \<Rightarrow> state" where
  "read_to_end a st =
     st\<lparr>heap := (heap st)(a := (heap st a)\<lparr>s_off := length (s_bytes (heap st a))\<rparr>)\<rparr>"

definition rewind :: "nat \<Rightarrow> state \<Rightarrow> state" where
  "rewind a st = st\<lparr>heap := (heap st)(a := (heap st a)\<lparr>s_off := 0\<rparr>)\<rparr>"

text \<open>
  The dynamic type behind an \<^verbatim>\<open>io.ReadSeeker\<close> of an upload: a scratch buffer or a file.
\<close>

datatype reader = Flexbuf nat | OsFile nat

fun addr_of :: "reader \<Rightarrow> nat" where
  "addr_of (Flexbuf a) = a"
| "addr_of (OsFile a) = a"

text \<open>\<^verbatim>\<open>Close\<close>, on either kind of reader.\<close>

definition close_reader :: "reader \<Rightarrow> state \<Rightarrow> state" where
  "close_reader r st =
     (case r of
        Flexbuf a \<Rightarrow> st\<lparr>heap := (heap st)(a := (heap st a)\<lparr>s_bytes := [], s_off := 0\<rparr>)\<rparr>
      | OsFile a \<Rightarrow> st\<lparr>heap := (heap st)(a := (heap st a)\<lparr>s_closed := True\<rparr>)\<rparr>)"

record uploadInfo =
  u_buildID :: string
  u_path :: string
  u_reader :: reader
  u_size :: int

subsection \<open>Flags\<close>

record flags =
  LogLevel :: string
  Upload_StoreAddress :: string
  Upload_BearerToken :: string
  Upload_BearerTokenFile :: string
  Upload_Insecure :: bool
  Upload_NoExtract :: bool
  Upload_NoInitiate :: bool
  Upload_Force :: bool
  Upload_Type :: string
  Upload_BuildID :: string
  Upload_Paths :: "string list"
  Extract_OutputDir :: string
  Extract_Paths :: "string list"
  Extract_Mode :: string
  Buildid_Path :: string
  Source_DebuginfoPath :: string
  Source_OutPath :: string

definition LogLevelDebug :: string where
  "LogLevelDebug = ''debug''"

subsection \<open>Debug information as the source command walks it\<close>

text \<open>
  \<^verbatim>\<open>r.Next()\<close> yields the entries of a finite section one by one, then nil; reading an
  entry may fail. For an entry, \<^verbatim>\<open>d.LineReader(e)\<close> fails, or is nil, or has a file
  table whose slots may be nil.
\<close>

datatype dwarf_Tag = TagCompileUnit | TagOther nat

record dwarf_Entry =
  e_Tag :: dwarf_Tag
  e_LineReader :: "error + (string option list) option"

subsection \<open>The collaborators\<close>

record env =
  os_ReadFile :: "event list \<Rightarrow> string \<Rightarrow> error + string"
  grpc_Dial :: "event list \<Rightarrow> string \<Rightarrow> error option"
  elf_Open :: "event list \<Rightarrow> string \<Rightarrow> error option"
  buildid_FromELF :: "event list \<Rightarrow> string \<Rightarrow> error + string"
  os_Open :: "event list \<Rightarrow> string \<Rightarrow> error + byte list"
  file_Stat :: "event list \<Rightarrow> string \<Rightarrow> error + int"
  os_RemoveAll :: "event list \<Rightarrow> string \<Rightarrow> error option"
  os_MkdirAll :: "event list \<Rightarrow> string \<Rightarrow> error option"
  os_Create :: "event list \<Rightarrow> string \<Rightarrow> error option"
  filepath_Join :: "string \<Rightarrow> string \<Rightarrow> string"
  range_rank :: "event list \<Rightarrow> string \<Rightarrow> nat"
  StripDebug :: "event list \<Rightarrow> byte list \<Rightarrow> stream \<Rightarrow> stream \<times> error option"
  OnlyKeepDebug :: "event list \<Rightarrow> byte list \<Rightarrow> stream \<Rightarrow> stream \<times> error option"
  ShouldInitiateUpload ::
    "event list \<Rightarrow> ShouldInitiateUploadRequest \<Rightarrow> error + ShouldInitiateUploadResponse"
  hash_fails :: "event list \<Rightarrow> nat \<Rightarrow> error option"
  hash_sum :: "byte list \<Rightarrow> string"
  file_Seek :: "event list \<Rightarrow> nat \<Rightarrow> error option"
  InitiateUpload :: "event list \<Rightarrow> InitiateUploadRequest \<Rightarrow> error + InitiateUploadResponse"
  grpc_Upload :: "event list \<Rightarrow> UploadInstructions \<Rightarrow> byte list \<Rightarrow> error option"
  http_NewRequest :: "string \<Rightarrow> string \<Rightarrow> error option"
  http_Do :: "event list \<Rightarrow> string \<Rightarrow> string \<Rightarrow> byte list \<Rightarrow> error + int"
  MarkUploadFinished :: "event list \<Rightarrow> MarkUploadFinishedRequest \<Rightarrow> error option"
  zstd_NewWriter :: "event list \<Rightarrow> error option"
  elf_DWARF :: "event list \<Rightarrow> string \<Rightarrow> error + (error + dwarf_Entry) list"
  errors_Is_ErrNotExist :: "error \<Rightarrow> bool"
  tar_WriteHeader :: "event list \<Rightarrow> string \<Rightarrow> int \<Rightarrow> error option"
  io_Copy :: "event list \<Rightarrow> string \<Rightarrow> byte list \<Rightarrow> error option"
  file_Close :: "event list \<Rightarrow> string \<Rightarrow> error option"

section \<open>The helpers of main.go\<close>

subsection \<open>debuginfoTypeStringToPb\<close>

definition debuginfoTypeStringToPb :: "string \<Rightarrow> DebuginfoType" where
  "debuginfoTypeStringToPb s =
     (if s = ''executable'' then DEBUGINFO_TYPE_EXECUTABLE
      else if s = ''sources'' then DEBUGINFO_TYPE_SOURCES
      else DEBUGINFO_TYPE_DEBUGINFO_UNSPECIFIED)"

subsection \<open>uploadViaSignedURL\<close>

definition StatusOK :: int where
  "StatusOK = 200"

definition MethodPut :: string where
  "MethodPut = ''PUT''"

text \<open>
  The request is built (which fails on a URL that does not parse), sent once with the
  reader as its body, and the status of the response compared with \<^verbatim>\<open>http.StatusOK\<close>.
  Sending reads the body to its end. Both kinds of reader have a \<^verbatim>\<open>Close\<close> method, so
  the request keeps the reader itself as its body, and the HTTP client closes the body of
  every request it is given, whether the exchange succeeds or fails: after the call a
  scratch buffer is empty and a file is closed.
\<close>

definition uploadViaSignedURL :: "env \<Rightarrow> state \<Rightarrow> string \<Rightarrow> reader \<Rightarrow> state \<times> error option" where
  "uploadViaSignedURL env st url r =
     (case http_NewRequest env MethodPut url of
        Some err \<Rightarrow> (st, Some (Errorf ''create request: %w'' [] (Some err)))
      | None \<Rightarrow>
          (let body = remaining st (addr_of r);
               resp = http_Do env (trace st) MethodPut url body;
               st1 = close_reader r
                       (read_to_end (addr_of r) (emit (Call_http_Do MethodPut url body resp) st))
           in case resp of
                Inl err \<Rightarrow> (st1, Some (Errorf ''do upload request: %w'' [] (Some err)))
              | Inr StatusCode \<Rightarrow>
                  if StatusCode \<noteq> StatusOK
                  then (st1, Some (Errorf ''unexpected status code: %d'' [ArgInt StatusCode] None))
                  else (st1, None)))"

subsection \<open>extractAll\<close>

text \<open>
  Go visits the entries of a map in an order of its own choosing. A map is kept as an
  association list with distinct keys; the order of a \<^verbatim>\<open>range\<close> over it is the list
  sorted by a rank that the environment picks for each key. Whatever the rank, every
  entry is visited once, and every order of visit is the choice of some rank.
\<close>

definition range_order :: "env \<Rightarrow> event list \<Rightarrow> (string \<times> nat) list \<Rightarrow> (string \<times> nat) list" where
  "range_order env tr m = sort_key (\<lambda>kv. range_rank env tr (fst kv)) m"

text \<open>
  The loop over the map \<^verbatim>\<open>srcDsts\<close>, with \<^verbatim>\<open>result\<close> as its accumulator.
\<close>

fun extractAll_loop ::
  "env \<Rightarrow> string \<Rightarrow> state \<Rightarrow> (string \<times> nat) list \<Rightarrow> error option \<Rightarrow> state \<times> error option" where
  "extractAll_loop env mode st [] result = (st, result)"
| "extractAll_loop env mode st ((src, dst) # rest) result =
     (case os_Open env (trace st) src of
        Inl err \<Rightarrow>
          extractAll_loop env mode
            (emit (Print_Stderr ''failed to open file: %s, %v'' [ArgStr src] (Some err))
               (emit (Call_os_Open src (Some err)) st))
            rest (errors_Join [result, Some err])
      | Inr f \<Rightarrow>
          (let st1 = emit (Call_os_Open src None) st;
               extractFn = (if mode = ''strip-debug'' then StripDebug env else OnlyKeepDebug env);
               fn = (if mode = ''strip-debug'' then ''StripDebug'' else ''OnlyKeepDebug'');
               (written, r) = extractFn (trace st1) f (heap st1 dst);
               st2 = emit (Call_extractFn fn src dst r) (st1\<lparr>heap := (heap st1)(dst := written)\<rparr>)
           in case r of
                Some err \<Rightarrow>
                  extractAll_loop env mode
                    (emit (Print_Stderr ''failed to extract debug information: %s, %v''
                             [ArgStr src] (Some err)) st2)
                    rest (errors_Join [result, Some err])
              | None \<Rightarrow> extractAll_loop env mode st2 rest result))"

definition extractAll :: "env \<Rightarrow> string \<Rightarrow> state \<Rightarrow> (string \<times> nat) list \<Rightarrow> state \<times> error option" where
  "extractAll env mode st srcDsts =
     extractAll_loop env mode st (range_order env (trace st) srcDsts) None"

subsection \<open>grpcConn\<close>

text \<open>
  The dial options (metrics, transport credentials, bearer token) do not reach any of the
  decisions below; what can fail is reading the token file, and the dial.
\<close>

definition grpcConn :: "env \<Rightarrow> state \<Rightarrow> flags \<Rightarrow> state \<times> error option" where
  "grpcConn env st fl =
     (if Upload_BearerTokenFile fl \<noteq> [] then
        (case os_ReadFile env (trace st) (Upload_BearerTokenFile fl) of
           Inl err \<Rightarrow>
             (emit (Call_os_ReadFile (Upload_BearerTokenFile fl) (Some err)) st,
              Some (Errorf ''failed to read bearer token from file: %w'' [] (Some err)))
         | Inr b \<Rightarrow>
             (let st1 = emit (Call_os_ReadFile (Upload_BearerTokenFile fl) None) st;
                  r = grpc_Dial env (trace st1) (Upload_StoreAddress fl)
              in (emit (Call_grpc_Dial (Upload_StoreAddress fl) r) st1, r)))
      else
        (let r = grpc_Dial env (trace st) (Upload_StoreAddress fl)
         in (emit (Call_grpc_Dial (Upload_StoreAddress fl) r) st, r)))"

section \<open>The upload command\<close>

subsection \<open>Collecting the artifacts\<close>

text \<open>
  With extraction (the default kind, and no \<^verbatim>\<open>--no-extract\<close>): one fresh scratch buffer
  per path, entered in the map \<^verbatim>\<open>srcDst\<close> under the path and in the list \<^verbatim>\<open>uploads\<close>.
  A path given twice replaces the buffer the map holds for it.
\<close>

fun collect_extract ::
  "env \<Rightarrow> state \<Rightarrow> string list \<Rightarrow> (string \<times> nat) list \<Rightarrow> uploadInfo list \<Rightarrow>
     state \<times> (error + (string \<times> nat) list \<times> uploadInfo list)" where
  "collect_extract env st [] srcDst uploads = (st, Inr (srcDst, uploads))"
| "collect_extract env st (path # paths) srcDst uploads =
     (case elf_Open env (trace st) path of
        Some err \<Rightarrow>
          (emit (Call_elf_Open path (Some err)) st, Inl (Errorf ''open ELF file: %w'' [] (Some err)))
      | None \<Rightarrow>
          (let st1 = emit (Call_elf_Open path None) st;
               b = buildid_FromELF env (trace st1) path;
               st2 = emit (Call_buildid_FromELF path b) st1
           in case b of
                Inl err \<Rightarrow> (st2, Inl (Errorf ''get Build ID for %q: %w'' [ArgStr path] (Some err)))
              | Inr buildID \<Rightarrow>
                  (let (buf, st3) = alloc [] st2
                   in collect_extract env st3 paths (AList.update path buf srcDst)
                        (uploads @ [\<lparr>u_buildID = buildID, u_path = path,
                                     u_reader = Flexbuf buf, u_size = 0\<rparr>]))))"

text \<open>
  After extraction every buffer is rewound (\<^verbatim>\<open>SeekStart\<close>) and its length becomes the
  size of the upload; an empty one ends the run.
\<close>

fun sizes_after_extraction :: "state \<Rightarrow> uploadInfo list \<Rightarrow> state \<times> (error + uploadInfo list)" where
  "sizes_after_extraction st [] = (st, Inr [])"
| "sizes_after_extraction st (upload # rest) =
     (case u_reader upload of
        OsFile f \<Rightarrow>
          (st, Inl (Errorf ''failed to cast reader to flexbuf.Buffer, something went terribly wrong as this should be the only type used'' [] None))
      | Flexbuf buf \<Rightarrow>
          (let st1 = rewind buf st;
               upload1 = upload\<lparr>u_size := int (length (s_bytes (heap st1 buf)))\<rparr>
           in if u_size upload1 = 0
              then (st1, Inl (Errorf ''extracted debug information from %q is empty, but must not be empty''
                                [ArgStr (u_path upload1)] None))
              else (case sizes_after_extraction st1 rest of
                      (st2, Inl err) \<Rightarrow> (st2, Inl err)
                    | (st2, Inr uploads) \<Rightarrow> (st2, Inr (upload1 # uploads)))))"

text \<open>
  Without extraction: the build ID is the flag's, or read from the ELF file when the kind
  is the default one and the flag is empty; the content is the file itself and the size
  the one \<^verbatim>\<open>Stat\<close> reports.
\<close>

definition resolve_buildID :: "env \<Rightarrow> flags \<Rightarrow> state \<Rightarrow> string \<Rightarrow> state \<times> (error + string)" where
  "resolve_buildID env fl st path =
     (if Upload_Type fl = ''debuginfo'' \<and> Upload_BuildID fl = [] then
        (case elf_Open env (trace st) path of
           Some err \<Rightarrow>
             (emit (Call_elf_Open path (Some err)) st, Inl (Errorf ''open ELF file: %w'' [] (Some err)))
         | None \<Rightarrow>
             (let st1 = emit (Call_elf_Open path None) st;
                  b = buildid_FromELF env (trace st1) path;
                  st2 = emit (Call_buildid_FromELF path b) st1
              in case b of
                   Inl err \<Rightarrow> (st2, Inl (Errorf ''get Build ID for %q: %w'' [ArgStr path] (Some err)))
                 | Inr buildID \<Rightarrow> (st2, Inr buildID)))
      else (st, Inr (Upload_BuildID fl)))"

fun collect_files ::
  "env \<Rightarrow> flags \<Rightarrow> state \<Rightarrow> string list \<Rightarrow> uploadInfo list \<Rightarrow> state \<times> (error + uploadInfo list)" where
  "collect_files env fl st [] uploads = (st, Inr uploads)"
| "collect_files env fl st (path # paths) uploads =
     (case resolve_buildID env fl st path of
        (st1, Inl err) \<Rightarrow> (st1, Inl err)
      | (st1, Inr buildID) \<Rightarrow>
          (case os_Open env (trace st1) path of
             Inl err \<Rightarrow>
               (emit (Call_os_Open path (Some err)) st1, Inl (Errorf ''open file: %w'' [] (Some err)))
           | Inr content \<Rightarrow>
               (let (f, st2) = alloc content (emit (Call_os_Open path None) st1);
                    fi = file_Stat env (trace st2) path;
                    st3 = emit (Call_Stat path fi) st2
                in case fi of
                     Inl err \<Rightarrow> (st3, Inl (Errorf ''stat file: %w'' [] (Some err)))
                   | Inr Size \<Rightarrow>
                       if Size = 0
                       then (st3, Inl (Errorf ''file %q is empty, but must not be empty''
                                         [ArgStr path] None))
                       else collect_files env fl st3 paths
                              (uploads @ [\<lparr>u_buildID = buildID, u_path = path,
                                           u_reader = OsFile f, u_size = Size\<rparr>]))))"

subsection \<open>The protocol for one artifact\<close>

text \<open>
  \<^verbatim>\<open>hash.Reader\<close> reads the stream from its offset to its end and returns the digest of
  what it read, or the error of a failed read.
\<close>

definition hash_Reader :: "env \<Rightarrow> state \<Rightarrow> nat \<Rightarrow> state \<times> (error + string)" where
  "hash_Reader env st r =
     (let bs = remaining st r;
          res = (case hash_fails env (trace st) r of
                   Some err \<Rightarrow> Inl err
                 | None \<Rightarrow> Inr (hash_sum env bs))
      in (read_to_end r (emit (Call_hash_Reader bs res) st), res))"

text \<open>
  \<^verbatim>\<open>Seek(0, io.SeekStart)\<close>: on a scratch buffer it cannot fail, on a file it can.
\<close>

definition Seek_SeekStart :: "env \<Rightarrow> state \<Rightarrow> reader \<Rightarrow> state \<times> error option" where
  "Seek_SeekStart env st r =
     (case r of
        Flexbuf a \<Rightarrow> (rewind a (emit (Call_Seek a None) st), None)
      | OsFile a \<Rightarrow>
          (case file_Seek env (trace st) a of
             Some err \<Rightarrow> (emit (Call_Seek a (Some err)) st, Some err)
           | None \<Rightarrow> (rewind a (emit (Call_Seek a None) st), None)))"

definition debug_print :: "flags \<Rightarrow> string \<Rightarrow> fmtarg list \<Rightarrow> state \<Rightarrow> state" where
  "debug_print fl fmt args st =
     (if LogLevel fl = LogLevelDebug then emit (Print_Stdout fmt args) st else st)"

text \<open>The switch on the strategy the store chose.\<close>

definition upload_dispatch ::
  "env \<Rightarrow> flags \<Rightarrow> state \<Rightarrow> uploadInfo \<Rightarrow> UploadInstructions \<Rightarrow> state \<times> error option" where
  "upload_dispatch env fl st upload instr =
     (case ui_UploadStrategy instr of
        UPLOAD_STRATEGY_GRPC \<Rightarrow>
          (let st1 = debug_print fl ''Performing a gRPC upload for %q with Build ID %q.''
                       [ArgStr (u_path upload), ArgStr (u_buildID upload)] st;
               body = remaining st1 (addr_of (u_reader upload));
               err = grpc_Upload env (trace st1) instr body
           in (read_to_end (addr_of (u_reader upload)) (emit (Call_grpc_Upload instr body err) st1),
               err))
      | UPLOAD_STRATEGY_SIGNED_URL \<Rightarrow>
          (let st1 = debug_print fl ''Performing a signed URL upload for %q with Build ID %q.''
                       [ArgStr (u_path upload), ArgStr (u_buildID upload)] st
           in uploadViaSignedURL env st1 (ui_SignedUrl instr) (u_reader upload))
      | UPLOAD_STRATEGY_UNSPECIFIED \<Rightarrow> (st, Some (New ''no upload strategy specified''))
      | UPLOAD_STRATEGY_unrecognized n \<Rightarrow>
          (st, Some (Errorf ''unknown upload strategy: %v''
                       [ArgStrategy (ui_UploadStrategy instr)] None)))"

definition upload_finish ::
  "env \<Rightarrow> flags \<Rightarrow> state \<Rightarrow> uploadInfo \<Rightarrow> UploadInstructions \<Rightarrow> state \<times> error option" where
  "upload_finish env fl st upload instr =
     (let req = \<lparr>mreq_BuildId = u_buildID upload, mreq_UploadId = ui_UploadId instr,
                 mreq_Type = debuginfoTypeStringToPb (Upload_Type fl)\<rparr>;
          err = MarkUploadFinished env (trace st) req;
          st1 = emit (Call_MarkUploadFinished req err) st
      in case err of
           Some e \<Rightarrow>
             (st1, Some (Errorf ''mark upload finished for %q with Build ID %q: %w''
                           [ArgStr (u_path upload), ArgStr (u_buildID upload)] (Some e)))
         | None \<Rightarrow> (st1, None))"

text \<open>From the hash to the end of the loop body.\<close>

definition upload_initiate :: "env \<Rightarrow> flags \<Rightarrow> state \<Rightarrow> uploadInfo \<Rightarrow> state \<times> error option" where
  "upload_initiate env fl st upload =
     (case hash_Reader env st (addr_of (u_reader upload)) of
        (st1, Inl err) \<Rightarrow>
          (st1, Some (Errorf ''calculate hash of %q with Build ID %q: %w''
                        [ArgStr (u_path upload), ArgStr (u_buildID upload)] (Some err)))
      | (st1, Inr hash) \<Rightarrow>
          (case Seek_SeekStart env st1 (u_reader upload) of
             (st2, Some err) \<Rightarrow>
               (st2, Some (Errorf ''seek to start of %q with Build ID %q: %w''
                             [ArgStr (u_path upload), ArgStr (u_buildID upload)] (Some err)))
           | (st2, None) \<Rightarrow>
               (let req = \<lparr>ireq_BuildId = u_buildID upload, ireq_Hash = hash,
                           ireq_Size = u_size upload, ireq_Force = Upload_Force fl,
                           ireq_Type = debuginfoTypeStringToPb (Upload_Type fl)\<rparr>;
                    resp = InitiateUpload env (trace st2) req;
                    st3 = emit (Call_InitiateUpload req resp) st2
                in case resp of
                     Inl err \<Rightarrow>
                       (st3, Some (Errorf ''initiate upload for %q with Build ID %q: %w''
                                     [ArgStr (u_path upload), ArgStr (u_buildID upload)] (Some err)))
                   | Inr initiationResp \<Rightarrow>
                       (case iresp_UploadInstructions initiationResp of
                          None \<Rightarrow>
                            (st3, Some (runtime_panic ''invalid memory address or nil pointer dereference''))
                        | Some instr \<Rightarrow>
                            (let st4 = debug_print fl
                                   ''Upload instructions\<newline>BuildID: %s\<newline>UploadID: %s\<newline>UploadStrategy: %s\<newline>SignedURL: %s\<newline>Type: %s\<newline>''
                                   [ArgStr (ui_BuildId instr), ArgStr (ui_UploadId instr),
                                    ArgStrategy (ui_UploadStrategy instr),
                                    ArgStr (ui_SignedUrl instr), ArgType (ui_Type instr)] st3
                             in case upload_dispatch env fl st4 upload instr of
                                  (st5, Some err) \<Rightarrow>
                                    (st5, Some (Errorf ''upload %q with Build ID %q: %w''
                                                  [ArgStr (u_path upload), ArgStr (u_buildID upload)]
                                                  (Some err)))
                                | (st5, None) \<Rightarrow> upload_finish env fl st5 upload instr)))))"

text \<open>The body of the loop over \<^verbatim>\<open>uploads\<close>; \<open>None\<close> is reaching the next iteration.\<close>

definition upload_artifact :: "env \<Rightarrow> flags \<Rightarrow> state \<Rightarrow> uploadInfo \<Rightarrow> state \<times> error option" where
  "upload_artifact env fl st upload =
     (let req = \<lparr>sreq_BuildId = u_buildID upload, sreq_Force = Upload_Force fl,
                 sreq_Type = debuginfoTypeStringToPb (Upload_Type fl)\<rparr>;
          resp = ShouldInitiateUpload env (trace st) req;
          st1 = emit (Call_ShouldInitiateUpload req resp) st
      in case resp of
           Inl err \<Rightarrow>
             (st1, Some (Errorf ''check if upload should be initiated for %q with Build ID %q: %w''
                           [ArgStr (u_path upload), ArgStr (u_buildID upload)] (Some err)))
         | Inr shouldInitiate \<Rightarrow>
             if \<not> sresp_ShouldInitiateUpload shouldInitiate then
               (emit (Print_Stdout
                        ''Skipping upload of %q with Build ID %q as the store instructed not to: %s\<newline>''
                        [ArgStr (u_path upload), ArgStr (u_buildID upload),
                         ArgStr (sresp_Reason shouldInitiate)]) st1,
                None)
             else if Upload_NoInitiate fl then
               (emit (Print_Stdout
                        ''Not initiating upload of %q with Build ID %q as requested, but would have requested that next, because: %s\<newline>''
                        [ArgStr (u_path upload), ArgStr (u_buildID upload),
                         ArgStr (sresp_Reason shouldInitiate)]) st1,
                None)
             else upload_initiate env fl st1 upload)"

fun upload_loop :: "env \<Rightarrow> flags \<Rightarrow> state \<Rightarrow> uploadInfo list \<Rightarrow> state \<times> error option" where
  "upload_loop env fl st [] = (st, None)"
| "upload_loop env fl st (upload # rest) =
     (case upload_artifact env fl st upload of
        (st1, Some err) \<Rightarrow> (st1, Some err)
      | (st1, None) \<Rightarrow> upload_loop env fl st1 rest)"

subsection \<open>The command\<close>

text \<open>
  The collecting step: everything between the connection and the loop over \<^verbatim>\<open>uploads\<close>,
  by one of the two ways above. It ends the run with an error, or hands the list
  \<^verbatim>\<open>uploads\<close> to the loop.
\<close>

definition collect_uploads :: "env \<Rightarrow> flags \<Rightarrow> state \<Rightarrow> state \<times> (error + uploadInfo list)" where
  "collect_uploads env fl st1 =
     (if \<not> Upload_NoExtract fl \<and> Upload_Type fl = ''debuginfo'' then
        (case collect_extract env st1 (Upload_Paths fl) [] [] of
           (st2, Inl err) \<Rightarrow> (st2, Inl err)
         | (st2, Inr (srcDst, uploads)) \<Rightarrow>
             if length srcDst = 0 then (st2, Inl (New ''failed to find actionable files''))
             else
               (case extractAll env (Extract_Mode fl) st2 srcDst of
                  (st3, Some err) \<Rightarrow>
                    (st3, Inl (Errorf ''failed to extract debug information: %w'' [] (Some err)))
                | (st3, None) \<Rightarrow> sizes_after_extraction st3 uploads))
      else collect_files env fl st1 (Upload_Paths fl) [])"

definition run_upload :: "env \<Rightarrow> flags \<Rightarrow> state \<Rightarrow> state \<times> error option" where
  "run_upload env fl st =
     (case grpcConn env st fl of
        (st1, Some err) \<Rightarrow> (st1, Some (Errorf ''create gRPC connection: %w'' [] (Some err)))
      | (st1, None) \<Rightarrow>
          (case collect_uploads env fl st1 of
             (st2, Inl err) \<Rightarrow> (st2, Some err)
           | (st2, Inr uploads) \<Rightarrow> upload_loop env fl st2 uploads))"

section \<open>The extract command\<close>

text \<open>
  One output file per path, named after the build ID inside the output directory, which
  is removed and created again first. An output file is a stream of its own, empty when
  created.
\<close>

fun collect_outputs ::
  "env \<Rightarrow> flags \<Rightarrow> state \<Rightarrow> string list \<Rightarrow> (string \<times> nat) list \<Rightarrow>
     state \<times> (error + (string \<times> nat) list)" where
  "collect_outputs env fl st [] srcDst = (st, Inr srcDst)"
| "collect_outputs env fl st (path # paths) srcDst =
     (case elf_Open env (trace st) path of
        Some err \<Rightarrow>
          (emit (Call_elf_Open path (Some err)) st, Inl (Errorf ''open ELF file: %w'' [] (Some err)))
      | None \<Rightarrow>
          (let st1 = emit (Call_elf_Open path None) st;
               b = buildid_FromELF env (trace st1) path;
               st2 = emit (Call_buildid_FromELF path b) st1
           in case b of
                Inl err \<Rightarrow> (st2, Inl (Errorf ''get Build ID for %q: %w'' [ArgStr path] (Some err)))
              | Inr buildID \<Rightarrow>
                  (case os_Open env (trace st2) path of
                     Inl err \<Rightarrow>
                       (emit (Call_os_Open path (Some err)) st2,
                        Inl (Errorf ''open file: %w'' [] (Some err)))
                   | Inr f \<Rightarrow>
                       (let st3 = emit (Call_os_Open path None) st2;
                            output = filepath_Join env (Extract_OutputDir fl) (buildID @ ''.debuginfo'');
                            c = os_Create env (trace st3) output;
                            st4 = emit (Call_os_Create output c) st3
                        in case c of
                             Some err \<Rightarrow> (st4, Inl (Errorf ''create output file: %w'' [] (Some err)))
                           | None \<Rightarrow>
                               (let (outFile, st5) = alloc [] st4
                                in collect_outputs env fl st5 paths
                                     (AList.update path outFile srcDst))))))"

definition run_extract :: "env \<Rightarrow> flags \<Rightarrow> state \<Rightarrow> state \<times> error option" where
  "run_extract env fl st =
     (let r = os_RemoveAll env (trace st) (Extract_OutputDir fl);
          st1 = emit (Call_os_RemoveAll (Extract_OutputDir fl) r) st
      in case r of
           Some err \<Rightarrow>
             (st1, Some (Errorf ''failed to clean output dir, %s: %w''
                           [ArgStr (Extract_OutputDir fl)] (Some err)))
         | None \<Rightarrow>
             (let m = os_MkdirAll env (trace st1) (Extract_OutputDir fl);
                  st2 = emit (Call_os_MkdirAll (Extract_OutputDir fl) m) st1
              in case m of
                   Some err \<Rightarrow>
                     (st2, Some (Errorf ''failed to create output dir, %s: %w''
                                   [ArgStr (Extract_OutputDir fl)] (Some err)))
                 | None \<Rightarrow>
                     (case collect_outputs env fl st2 (Extract_Paths fl) [] of
                        (st3, Inl err) \<Rightarrow> (st3, Some err)
                      | (st3, Inr srcDst) \<Rightarrow>
                          if length srcDst = 0
                          then (st3, Some (New ''failed to find actionable files''))
                          else extractAll env (Extract_Mode fl) st3 srcDst)))"

section \<open>The buildid command\<close>

definition run_buildid :: "env \<Rightarrow> flags \<Rightarrow> state \<Rightarrow> state \<times> error option" where
  "run_buildid env fl st =
     (case elf_Open env (trace st) (Buildid_Path fl) of
        Some err \<Rightarrow>
          (emit (Call_elf_Open (Buildid_Path fl) (Some err)) st,
           Some (Errorf ''open ELF file: %w'' [] (Some err)))
      | None \<Rightarrow>
          (let st1 = emit (Call_elf_Open (Buildid_Path fl) None) st;
               b = buildid_FromELF env (trace st1) (Buildid_Path fl);
               st2 = emit (Call_buildid_FromELF (Buildid_Path fl) b) st1
           in case b of
                Inl err \<Rightarrow>
                  (st2, Some (Errorf ''get Build ID for %q: %w'' [ArgStr (Buildid_Path fl)] (Some err)))
              | Inr buildID \<Rightarrow>
                  if buildID = [] then (st2, Some (New ''failed to extract ELF build ID''))
                  else (emit (Print_Stdout ''%s'' [ArgStr buildID]) st2, None)))"

section \<open>The source command\<close>

text \<open>
  The loop over the file table of one compilation unit. \<open>seen\<close> is the set of names
  already archived or already reported missing.
\<close>

fun source_files ::
  "env \<Rightarrow> state \<Rightarrow> string set \<Rightarrow> string option list \<Rightarrow> state \<times> string set \<times> error option" where
  "source_files env st seen [] = (st, seen, None)"
| "source_files env st seen (None # rest) = source_files env st seen rest"
| "source_files env st seen (Some Name # rest) =
     (if Name \<in> seen then source_files env st seen rest
      else
        (case os_Open env (trace st) Name of
           Inl err \<Rightarrow>
             if errors_Is_ErrNotExist env err then
               source_files env
                 (emit (Print_Stderr ''skipping file %q: does not exist\<newline>'' [ArgStr Name] None)
                    (emit (Call_os_Open Name (Some err)) st))
                 (insert Name seen) rest
             else
               (emit (Call_os_Open Name (Some err)) st, seen,
                Some (Errorf ''open file: %w'' [] (Some err)))
         | Inr sourceFile \<Rightarrow>
             (let st1 = emit (Call_os_Open Name None) st;
                  stat = file_Stat env (trace st1) Name;
                  st2 = emit (Call_Stat Name stat) st1
              in case stat of
                   Inl err \<Rightarrow> (st2, seen, Some (Errorf ''stat file: %w'' [] (Some err)))
                 | Inr Size \<Rightarrow>
                     (let h = tar_WriteHeader env (trace st2) Name Size;
                          st3 = emit (Call_tar_WriteHeader Name Size h) st2
                      in case h of
                           Some err \<Rightarrow> (st3, seen, Some (Errorf ''write tar header: %w'' [] (Some err)))
                         | None \<Rightarrow>
                             (let c = io_Copy env (trace st3) Name sourceFile;
                                  st4 = emit (Call_io_Copy Name sourceFile c) st3
                              in case c of
                                   Some err \<Rightarrow>
                                     (st4, seen, Some (Errorf ''copy file to tar: %w'' [] (Some err)))
                                 | None \<Rightarrow>
                                     (let cl = file_Close env (trace st4) Name;
                                          st5 = emit (Call_Close Name cl) st4
                                      in case cl of
                                           Some err \<Rightarrow>
                                             (st5, seen, Some (Errorf ''close file: %w'' [] (Some err)))
                                         | None \<Rightarrow>
                                             source_files env st5 (insert Name seen) rest))))))"

text \<open>
  The loop over the entries: the end of the list is \<^verbatim>\<open>r.Next()\<close> returning nil.
\<close>

fun source_entries ::
  "env \<Rightarrow> state \<Rightarrow> string set \<Rightarrow> (error + dwarf_Entry) list \<Rightarrow> state \<times> string set \<times> error option" where
  "source_entries env st seen [] = (st, seen, None)"
| "source_entries env st seen (Inl err # rest) =
     (st, seen, Some (Errorf ''read DWARF entry: %w'' [] (Some err)))"
| "source_entries env st seen (Inr e # rest) =
     (if e_Tag e = TagCompileUnit then
        (case e_LineReader e of
           Inl err \<Rightarrow> (st, seen, Some (Errorf ''get line reader: %w'' [] (Some err)))
         | Inr None \<Rightarrow> source_entries env st seen rest
         | Inr (Some Files) \<Rightarrow>
             (case source_files env st seen Files of
                (st1, seen1, Some err) \<Rightarrow> (st1, seen1, Some err)
              | (st1, seen1, None) \<Rightarrow> source_entries env st1 seen1 rest))
      else source_entries env st seen rest)"

definition run_source :: "env \<Rightarrow> flags \<Rightarrow> state \<Rightarrow> state \<times> error option" where
  "run_source env fl st =
     (case elf_Open env (trace st) (Source_DebuginfoPath fl) of
        Some err \<Rightarrow>
          (emit (Call_elf_Open (Source_DebuginfoPath fl) (Some err)) st,
           Some (Errorf ''open elf: %w'' [] (Some err)))
      | None \<Rightarrow>
          (let st1 = emit (Call_elf_Open (Source_DebuginfoPath fl) None) st;
               sf = os_Create env (trace st1) (Source_OutPath fl);
               st2 = emit (Call_os_Create (Source_OutPath fl) sf) st1
           in case sf of
                Some err \<Rightarrow> (st2, Some (Errorf ''create source archive: %w'' [] (Some err)))
              | None \<Rightarrow>
                  (let zw = zstd_NewWriter env (trace st2);
                       st3 = emit (Call_zstd_NewWriter zw) st2
                   in case zw of
                        Some err \<Rightarrow> (st3, Some (Errorf ''create zstd writer: %w'' [] (Some err)))
                      | None \<Rightarrow>
                          (case elf_DWARF env (trace st3) (Source_DebuginfoPath fl) of
                             Inl err \<Rightarrow>
                               (emit (Call_elf_DWARF (Source_DebuginfoPath fl) (Some err)) st3,
                                Some (Errorf ''get dwarf data: %w'' [] (Some err)))
                           | Inr d \<Rightarrow>
                               (case source_entries env
                                       (emit (Call_elf_DWARF (Source_DebuginfoPath fl) None) st3) {} d of
                                  (st4, seen, err) \<Rightarrow> (st4, err))))))"

section \<open>run\<close>

text \<open>
  A run starts with an empty log and an empty store. The signal handler that \<^verbatim>\<open>run\<close>
  adds beside the command is not part of the model: a run here is one that no signal
  interrupts.
\<close>

definition init_state :: state where
  "init_state = \<lparr>trace = [], heap = (\<lambda>a. \<lparr>s_bytes = [], s_off = 0, s_closed = False\<rparr>), next_addr = 0\<rparr>"

definition run :: "env \<Rightarrow> string \<Rightarrow> flags \<Rightarrow> state \<times> error option" where
  "run env command fl =
     (if command = ''upload <path>'' then run_upload env fl init_state
      else if command = ''extract <path>'' then run_extract env fl init_state
      else if command = ''buildid <path>'' then run_buildid env fl init_state
      else if command = ''source <debuginfo-path>'' then run_source env fl init_state
      else (init_state, Some (New (''unknown command: '' @ command))))"

section \<open>Reading a trace\<close>

text \<open>The events a function added to the log: those of \<open>st'\<close> after those of \<open>st\<close>.\<close>

definition new_events :: "state \<Rightarrow> state \<Rightarrow> event list" where
  "new_events st st' = drop (length (trace st)) (trace st')"

text \<open>
  The calls of the upload protocol: the dedup check, the hash, the rewind, the initiation,
  the two transmissions and the completion mark.
\<close>

fun is_protocol_event :: "event \<Rightarrow> bool" where
  "is_protocol_event (Call_ShouldInitiateUpload req resp) = True"
| "is_protocol_event (Call_hash_Reader bs h) = True"
| "is_protocol_event (Call_Seek a r) = True"
| "is_protocol_event (Call_InitiateUpload req resp) = True"
| "is_protocol_event (Call_grpc_Upload instr bs r) = True"
| "is_protocol_event (Call_http_Do m url bs r) = True"
| "is_protocol_event (Call_MarkUploadFinished req r) = True"
| "is_protocol_event ev = False"

fun is_print :: "event \<Rightarrow> bool" where
  "is_print (Print_Stdout fmt args) = True"
| "is_print ev = False"

text \<open>The bytes a transmission event handed to its transport.\<close>

fun transmitted :: "event \<Rightarrow> byte list option" where
  "transmitted (Call_grpc_Upload instr bs r) = Some bs"
| "transmitted (Call_http_Do m url bs r) = Some bs"
| "transmitted ev = None"

text \<open>The steps of the protocol for one artifact, and the step an event takes.\<close>

datatype step = DedupChecked | Hashed | Rewound | Initiated | Transmitted | Finished

fun step_of :: "event \<Rightarrow> step option" where
  "step_of (Call_ShouldInitiateUpload req resp) = Some DedupChecked"
| "step_of (Call_hash_Reader bs h) = Some Hashed"
| "step_of (Call_Seek a r) = Some Rewound"
| "step_of (Call_InitiateUpload req resp) = Some Initiated"
| "step_of (Call_grpc_Upload instr bs r) = Some Transmitted"
| "step_of (Call_http_Do m url bs r) = Some Transmitted"
| "step_of (Call_MarkUploadFinished req r) = Some Finished"
| "step_of ev = None"

definition steps :: "event list \<Rightarrow> step list" where
  "steps evs = List.map_filter step_of evs"

text \<open>
  \<open>adds P st st'\<close>: the log of \<open>st'\<close> is the log of \<open>st\<close> followed by events that
  satisfy \<open>P\<close>.
\<close>

definition adds :: "(event list \<Rightarrow> bool) \<Rightarrow> state \<Rightarrow> state \<Rightarrow> bool" where
  "adds P st st' = (\<exists>evs. trace st' = trace st @ evs \<and> P evs)"

text \<open>\<open>quiet st st'\<close>: between the two states no call of the upload protocol was made.\<close>

abbreviation quiet :: "state \<Rightarrow> state \<Rightarrow> bool" where
  "quiet \<equiv> adds (list_all (\<lambda>ev. \<not> is_protocol_event ev))"

subsection \<open>The upload command\<close>

text \<open>The artifact kind a request of the protocol carries.\<close>

fun request_Type :: "event \<Rightarrow> DebuginfoType option" where
  "request_Type (Call_ShouldInitiateUpload req resp) = Some (sreq_Type req)"
| "request_Type (Call_InitiateUpload req resp) = Some (ireq_Type req)"
| "request_Type (Call_MarkUploadFinished req resp) = Some (mreq_Type req)"
| "request_Type ev = None"

definition request_typed :: "DebuginfoType \<Rightarrow> event \<Rightarrow> bool" where
  "request_typed ty ev = (request_Type ev = None \<or> request_Type ev = Some ty)"

text \<open>
  \<open>hash_sent env content evs\<close>: wherever the events \<open>evs\<close> hold a transmission of bytes
  \<open>bs\<close>, the events right before it are the hash of these same bytes, the rewind of a
  stream \<open>a\<close> and the \<^verbatim>\<open>InitiateUpload\<close> that carries this hash (then debug messages
  only), and \<open>bs\<close> is the content that \<open>content\<close> gives for the stream \<open>a\<close>.
\<close>

definition hash_sent :: "env \<Rightarrow> (nat \<rightharpoonup> byte list) \<Rightarrow> event list \<Rightarrow> bool" where
  "hash_sent env content evs =
     (\<forall>pre T post bs. evs = pre @ T # post \<and> transmitted T = Some bs \<longrightarrow>
        (\<exists>pre1 a req resp dbg.
           pre = pre1 @ [Call_hash_Reader bs (Inr (hash_sum env bs)), Call_Seek a None,
                         Call_InitiateUpload req resp] @ dbg \<and>
           list_all is_print dbg \<and> ireq_Hash req = hash_sum env bs \<and> content a = Some bs))"

text \<open>\<open>moved a h h'\<close>: the store \<open>h'\<close> is \<open>h\<close> but for the stream at \<open>a\<close>.\<close>

definition moved :: "nat \<Rightarrow> (nat \<Rightarrow> stream) \<Rightarrow> (nat \<Rightarrow> stream) \<Rightarrow> bool" where
  "moved a h h' = (\<forall>b. b \<noteq> a \<longrightarrow> h' b = h b)"

subsection \<open>extractAll\<close>

text \<open>
  What \<^verbatim>\<open>extractAll\<close> did with the pairs, read off the log: for each pair its source and
  the error it ended with, if any (a failed open, or a failed extraction).
\<close>

fun extract_outcome :: "event \<Rightarrow> (string \<times> error option) option" where
  "extract_outcome (Call_os_Open src (Some err)) = Some (src, Some err)"
| "extract_outcome (Call_extractFn fn src dst r) = Some (src, r)"
| "extract_outcome ev = None"

definition outcomes :: "event list \<Rightarrow> (string \<times> error option) list" where
  "outcomes evs = List.map_filter extract_outcome evs"

definition failures :: "event list \<Rightarrow> error list" where
  "failures evs = List.map_filter snd (outcomes evs)"


text \<open>\<^verbatim>\<open>result = errors.Join(result, err)\<close>, repeated for each error in turn.\<close>

definition join_all :: "error option \<Rightarrow> error list \<Rightarrow> error option" where
  "join_all result errs = foldl (\<lambda>acc err. errors_Join [acc, Some err]) result errs"

subsection \<open>The source command\<close>




definition warned :: "event \<Rightarrow> string option" where
  "warned ev =
     (case ev of
        Print_Stderr fmt args err \<Rightarrow>
          (if fmt = ''skipping file %q: does not exist\<newline>'' \<and> err = None
           then (case args of [ArgStr Name] \<Rightarrow> Some Name | _ \<Rightarrow> None)
           else None)
      | _ \<Rightarrow> None)"



definition occurrences :: "(event \<Rightarrow> string option) \<Rightarrow> string \<Rightarrow> event list \<Rightarrow> nat" where
  "occurrences f Name evs = length (filter (\<lambda>ev. f ev = Some Name) evs)"



text \<open>The file names the compilation units of the debug information declare, in order.\<close>

definition referenced_files :: "(error + dwarf_Entry) list \<Rightarrow> string list" where
  "referenced_files d =
     concat (map (\<lambda>x. case x of
                         Inl err \<Rightarrow> []
                       | Inr e \<Rightarrow>
                           if e_Tag e = TagCompileUnit
                           then (case e_LineReader e of
                                   Inr (Some Files) \<Rightarrow> List.map_filter (\<lambda>f. f) Files
                                 | _ \<Rightarrow> [])
                           else []) d)"

section \<open>Concrete environments\<close>

text \<open>
  A store that accepts every upload and asks for the gRPC transport, a file system in
  which every file holds three bytes, a reducer that copies its input.
\<close>

definition demo_instructions :: "UploadStrategy \<Rightarrow> UploadInstructions" where
  "demo_instructions s =
     \<lparr>ui_BuildId = ''abc'', ui_UploadId = ''upload-1'', ui_UploadStrategy = s,
      ui_SignedUrl = ''https://store/put'', ui_Type = DEBUGINFO_TYPE_DEBUGINFO_UNSPECIFIED\<rparr>"

definition demo_env :: env where
  "demo_env =
     \<lparr>os_ReadFile = (\<lambda>tr f. Inr ''token''),
      grpc_Dial = (\<lambda>tr a. None),
      elf_Open = (\<lambda>tr p. None),
      buildid_FromELF = (\<lambda>tr p. Inr ''abc''),
      os_Open = (\<lambda>tr p. Inr [1, 2, 3]),
      file_Stat = (\<lambda>tr p. Inr 3),
      os_RemoveAll = (\<lambda>tr p. None),
      os_MkdirAll = (\<lambda>tr p. None),
      os_Create = (\<lambda>tr p. None),
      filepath_Join = (\<lambda>d n. d @ ''/'' @ n),
      range_rank = (\<lambda>tr k. length k),
      StripDebug = (\<lambda>tr f dst. (\<lparr>s_bytes = f, s_off = length f, s_closed = False\<rparr>, None)),
      OnlyKeepDebug = (\<lambda>tr f dst. (\<lparr>s_bytes = f, s_off = length f, s_closed = False\<rparr>, None)),
      ShouldInitiateUpload =
        (\<lambda>tr req. Inr \<lparr>sresp_ShouldInitiateUpload = True, sresp_Reason = ''new''\<rparr>),
      hash_fails = (\<lambda>tr a. None),
      hash_sum = (\<lambda>bs. replicate (length bs) CHR ''h''),
      file_Seek = (\<lambda>tr a. None),
      InitiateUpload =
        (\<lambda>tr req. Inr \<lparr>iresp_UploadInstructions = Some (demo_instructions UPLOAD_STRATEGY_GRPC)\<rparr>),
      grpc_Upload = (\<lambda>tr i b. None),
      http_NewRequest = (\<lambda>m u. None),
      http_Do = (\<lambda>tr m u b. Inr 200),
      MarkUploadFinished = (\<lambda>tr req. None),
      zstd_NewWriter = (\<lambda>tr. None),
      elf_DWARF = (\<lambda>tr p. Inr []),
      errors_Is_ErrNotExist = (\<lambda>e. e = External ''ENOENT''),
      tar_WriteHeader = (\<lambda>tr n s. None),
      io_Copy = (\<lambda>tr n b. None),
      file_Close = (\<lambda>tr n. None)\<rparr>"

definition demo_flags :: flags where
  "demo_flags =
     \<lparr>LogLevel = ''info'', Upload_StoreAddress = ''store:443'', Upload_BearerToken = [],
      Upload_BearerTokenFile = [], Upload_Insecure = False, Upload_NoExtract = False,
      Upload_NoInitiate = False, Upload_Force = False, Upload_Type = ''debuginfo'',
      Upload_BuildID = [], Upload_Paths = [''a.out''], Extract_OutputDir = ''out'',
      Extract_Paths = [''a.out''], Extract_Mode = ''keep-only-debug'', Buildid_Path = ''a.out'',
      Source_DebuginfoPath = ''a.debug'', Source_OutPath = ''source.tar.zstd''\<rparr>"

text \<open>An artifact whose content, three bytes at address 0, is about to be uploaded.\<close>

definition demo_upload :: uploadInfo where
  "demo_upload = \<lparr>u_buildID = ''abc'', u_path = ''a.out'', u_reader = OsFile 0, u_size = 3\<rparr>"

definition demo_state :: state where
  "demo_state = \<lparr>trace = [], heap = (\<lambda>a. \<lparr>s_bytes = [1, 2, 3], s_off = 0, s_closed = False\<rparr>), next_addr = 1\<rparr>"

text \<open>A store that already has the build ID and declines the upload.\<close>

definition declining_env :: env where
  "declining_env = demo_env\<lparr>ShouldInitiateUpload :=
     (\<lambda>tr req. Inr \<lparr>sresp_ShouldInitiateUpload = False, sresp_Reason = ''exists''\<rparr>)\<rparr>"

text \<open>The store's signed URL answering a PUT with a given status.\<close>

definition status_env :: "int \<Rightarrow> env" where
  "status_env code = demo_env\<lparr>http_Do := (\<lambda>tr m u b. Inr code)\<rparr>"

text \<open>A store that answers \<^verbatim>\<open>InitiateUpload\<close> with a given strategy.\<close>

definition unspecified_env :: "UploadStrategy \<Rightarrow> env" where
  "unspecified_env s = demo_env\<lparr>InitiateUpload :=
     (\<lambda>tr req. Inr \<lparr>iresp_UploadInstructions = Some (demo_instructions s)\<rparr>)\<rparr>"


text \<open>A file system in which the file \<^verbatim>\<open>empty\<close> has size 0.\<close>

definition empty_file_env :: env where
  "empty_file_env = demo_env\<lparr>file_Stat := (\<lambda>tr p. if p = ''empty'' then Inr 0 else Inr 3)\<rparr>"

text \<open>A reducer that writes nothing.\<close>

definition empty_output_env :: env where
  "empty_output_env = demo_env\<lparr>OnlyKeepDebug := (\<lambda>tr f dst. (dst, None))\<rparr>"

definition empty_file_flags :: flags where
  "empty_file_flags = demo_flags\<lparr>Upload_NoExtract := True, Upload_Paths := [''a.out'', ''empty'', ''c.out'']\<rparr>"


section \<open>Facts about the log and the store\<close>

lemma trace_emit [simp]: "trace (emit ev st) = trace st @ [ev]"
  by (simp add: emit_def)

lemma heap_emit [simp]: "heap (emit ev st) = heap st"
  by (simp add: emit_def)

lemma next_addr_emit [simp]: "next_addr (emit ev st) = next_addr st"
  by (simp add: emit_def)

lemma trace_rewind [simp]: "trace (rewind a st) = trace st"
  by (simp add: rewind_def)

lemma trace_read_to_end [simp]: "trace (read_to_end a st) = trace st"
  by (simp add: read_to_end_def)

lemma heap_rewind [simp]: "heap (rewind a st) = (heap st)(a := (heap st a)\<lparr>s_off := 0\<rparr>)"
  by (simp add: rewind_def)

lemma heap_read_to_end [simp]:
  "heap (read_to_end a st) = (heap st)(a := (heap st a)\<lparr>s_off := length (s_bytes (heap st a))\<rparr>)"
  by (simp add: read_to_end_def)

lemma remaining_emit [simp]: "remaining (emit ev st) a = remaining st a"
  by (simp add: remaining_def)

lemma new_events_self [simp]: "new_events st st = []"
  by (simp add: new_events_def)

lemma new_events_append [simp]: "trace st' = trace st @ evs \<Longrightarrow> new_events st st' = evs"
  by (simp add: new_events_def)

lemma new_events_emit [simp]: "new_events st (emit ev st) = [ev]"
  by (simp add: new_events_def)

lemma addsD: "adds P st st' \<Longrightarrow> trace st' = trace st @ new_events st st' \<and> P (new_events st st')"
  by (auto simp: adds_def)

lemma adds_refl [simp]: "adds (list_all K) st st"
  by (simp add: adds_def)

lemma adds_emit: "adds (list_all K) st0 st \<Longrightarrow> K ev \<Longrightarrow> adds (list_all K) st0 (emit ev st)"
  by (auto simp: adds_def)

lemma adds_alloc: "adds P st0 st \<Longrightarrow> alloc bs st = (a, st1) \<Longrightarrow> adds P st0 st1"
  unfolding adds_def alloc_def by auto

lemma adds_heap_update [simp]: "adds P st0 (st\<lparr>heap := h\<rparr>) = adds P st0 st"
  unfolding adds_def by simp

lemma adds_rewind [simp]: "adds P st0 (rewind a st) = adds P st0 st"
  unfolding adds_def by simp

lemma adds_read_to_end [simp]: "adds P st0 (read_to_end a st) = adds P st0 st"
  unfolding adds_def by simp

lemma trace_close_reader [simp]: "trace (close_reader r st) = trace st"
  by (cases r) (simp_all add: close_reader_def)

lemma moved_refl [simp]: "moved a h h"
  by (simp add: moved_def)

lemma moved_trans: "moved a h h1 \<Longrightarrow> moved a h1 h2 \<Longrightarrow> moved a h h2"
  by (simp add: moved_def)

lemma moved_upd [simp]: "moved a h (h(a := x))"
  by (simp add: moved_def)

lemma movedD: "moved a h h' \<Longrightarrow> b \<noteq> a \<Longrightarrow> h' b = h b"
  by (simp add: moved_def)

lemma moved_close_reader: "moved (addr_of r) h (heap st) \<Longrightarrow> moved (addr_of r) h (heap (close_reader r st))"
  by (cases r) (simp_all add: close_reader_def moved_def)

lemma steps_append [simp]: "steps (xs @ ys) = steps xs @ steps ys"
  by (simp add: steps_def List.map_filter_def)

lemma steps_Nil [simp]: "steps [] = []"
  by (simp add: steps_def)

lemma steps_Cons [simp]:
  "steps (ev # evs) = (case step_of ev of None \<Rightarrow> steps evs | Some s \<Rightarrow> s # steps evs)"
  by (cases "step_of ev") (simp_all add: steps_def)

lemma steps_prints [simp]: "list_all is_print dbg \<Longrightarrow> steps dbg = []"
  by (induction dbg) (auto elim: is_print.elims)

lemma range_order_Nil [simp]: "range_order env tr [] = []"
  by (simp add: range_order_def)



section \<open>What each phase adds to the log\<close>

lemma grpcConn_quiet: "quiet st0 st \<Longrightarrow> grpcConn env st fl = (st', r) \<Longrightarrow> quiet st0 st'"
  by (auto simp: grpcConn_def Let_def split: if_splits sum.splits intro!: adds_emit)

lemma collect_extract_quiet:
  "quiet st0 st \<Longrightarrow> collect_extract env st paths srcDst uploads = (st', r) \<Longrightarrow> quiet st0 st'"
proof (induction paths arbitrary: st srcDst uploads)
  case Nil
  then show ?case by simp
next
  case (Cons path paths)
  from Cons.prems show ?case
    by (auto simp: Let_def split: option.splits sum.splits prod.splits
        intro!: adds_emit elim!: Cons.IH[rotated] adds_alloc[rotated])
qed

lemma resolve_buildID_quiet:
  "quiet st0 st \<Longrightarrow> resolve_buildID env fl st path = (st', r) \<Longrightarrow> quiet st0 st'"
  by (auto simp: resolve_buildID_def Let_def split: if_splits option.splits sum.splits
      intro!: adds_emit)

lemma collect_files_quiet:
  "quiet st0 st \<Longrightarrow> collect_files env fl st paths uploads = (st', r) \<Longrightarrow> quiet st0 st'"
proof (induction paths arbitrary: st uploads)
  case Nil
  then show ?case by simp
next
  case (Cons path paths)
  from Cons.prems show ?case
    by (auto simp: Let_def split: option.splits sum.splits prod.splits if_splits
        dest!: resolve_buildID_quiet[rotated, where ?st0.0=st0]
        intro!: adds_emit elim!: Cons.IH[rotated] adds_alloc[rotated])
qed

lemma extractAll_loop_quiet:
  "quiet st0 st \<Longrightarrow> extractAll_loop env mode st srcDsts result = (st', r) \<Longrightarrow> quiet st0 st'"
proof (induction srcDsts arbitrary: st result mode)
  case Nil
  then show ?case by simp
next
  case (Cons sd srcDsts)
  obtain src dst where sd: "sd = (src, dst)" by (cases sd)
  from Cons.prems show ?case unfolding sd
    by (auto simp: Let_def split: option.splits sum.splits prod.splits if_splits
        intro!: adds_emit elim!: Cons.IH[rotated])
qed

lemma extractAll_quiet:
  "quiet st0 st \<Longrightarrow> extractAll env mode st srcDsts = (st', r) \<Longrightarrow> quiet st0 st'"
  unfolding extractAll_def by (rule extractAll_loop_quiet)

lemma sizes_after_extraction_trace:
  "sizes_after_extraction st uploads = (st', r) \<Longrightarrow> trace st' = trace st"
proof (induction uploads arbitrary: st r)
  case Nil
  then show ?case by simp
next
  case (Cons u uploads)
  from Cons.prems show ?case
    by (auto simp: Let_def split: reader.splits if_splits prod.splits sum.splits dest: Cons.IH)
qed

section \<open>The protocol for one artifact, case by case\<close>

lemma debug_print_trace:
  "\<exists>dbg. trace (debug_print fl fmt args st) = trace st @ dbg \<and> list_all is_print dbg"
  by (simp add: debug_print_def)

lemma heap_debug_print [simp]: "heap (debug_print fl fmt args st) = heap st"
  by (simp add: debug_print_def)

lemma hash_Reader_eq:
  "hash_Reader env st a = (st', res) \<Longrightarrow>
     st' = read_to_end a (emit (Call_hash_Reader (remaining st a) res) st) \<and>
     (\<forall>h. res = Inr h \<longrightarrow> h = hash_sum env (remaining st a))"
  by (auto simp: hash_Reader_def Let_def split: option.splits)

lemma Seek_SeekStart_eq:
  "Seek_SeekStart env st rd = (st', res) \<Longrightarrow>
     trace st' = trace st @ [Call_Seek (addr_of rd) res] \<and>
     (res = None \<longrightarrow> heap st' = (heap st)(addr_of rd := (heap st (addr_of rd))\<lparr>s_off := 0\<rparr>)) \<and>
     (res \<noteq> None \<longrightarrow> heap st' = heap st)"
  by (auto simp: Seek_SeekStart_def split: reader.splits option.splits)

lemma upload_finish_eq:
  "upload_finish env fl st u instr = (st', r) \<Longrightarrow>
     (\<exists>x. trace st' = trace st @
        [Call_MarkUploadFinished \<lparr>mreq_BuildId = u_buildID u, mreq_UploadId = ui_UploadId instr,
            mreq_Type = debuginfoTypeStringToPb (Upload_Type fl)\<rparr> x] \<and> ((x = None) = (r = None))) \<and>
     heap st' = heap st"
  by (auto simp: upload_finish_def Let_def split: option.splits)

lemma uploadViaSignedURL_cases [consumes 1, case_names invalid_url sent]:
  assumes "uploadViaSignedURL env st url rd = (st', r)"
  obtains (invalid_url) err where "st' = st" "r = Some (Errorf ''create request: %w'' [] (Some err))"
  | (sent) x where
      "trace st' = trace st @ [Call_http_Do MethodPut url (remaining st (addr_of rd)) x]"
      "moved (addr_of rd) (heap st) (heap st')"
      "x = Inr StatusOK \<longleftrightarrow> r = None"
proof (cases "http_NewRequest env MethodPut url")
  case (Some err)
  with assms show ?thesis by (intro invalid_url[of err]) (simp_all add: uploadViaSignedURL_def)
next
  case None
  define x where "x = http_Do env (trace st) MethodPut url (remaining st (addr_of rd))"
  define st1 where "st1 = close_reader rd (read_to_end (addr_of rd)
      (emit (Call_http_Do MethodPut url (remaining st (addr_of rd)) x) st))"
  have m: "moved (addr_of rd) (heap st) (heap st1)"
    unfolding st1_def by (intro moved_close_reader) simp
  have tr: "trace st1 = trace st @ [Call_http_Do MethodPut url (remaining st (addr_of rd)) x]"
    by (simp add: st1_def)
  from assms None have "st' = st1 \<and> (x = Inr StatusOK \<longleftrightarrow> r = None)"
    by (auto simp: uploadViaSignedURL_def Let_def x_def st1_def split: sum.splits if_splits)
  with m tr show ?thesis by (intro sent[of x]) simp_all
qed

lemma upload_dispatch_cases [consumes 1, case_names no_strategy invalid_url transmitted]:
  fixes u :: uploadInfo
  defines "a \<equiv> addr_of (u_reader u)"
  assumes "upload_dispatch env fl st u instr = (st', r)"
  obtains
    (no_strategy) "ui_UploadStrategy instr \<noteq> UPLOAD_STRATEGY_GRPC"
      "ui_UploadStrategy instr \<noteq> UPLOAD_STRATEGY_SIGNED_URL" "st' = st"
      "r = Some (if ui_UploadStrategy instr = UPLOAD_STRATEGY_UNSPECIFIED
                 then New ''no upload strategy specified''
                 else Errorf ''unknown upload strategy: %v'' [ArgStrategy (ui_UploadStrategy instr)] None)"
  | (invalid_url) dbg err where "ui_UploadStrategy instr = UPLOAD_STRATEGY_SIGNED_URL"
      "trace st' = trace st @ dbg" "list_all is_print dbg" "heap st' = heap st"
      "r = Some (Errorf ''create request: %w'' [] (Some err))"
  | (transmitted) dbg T where "trace st' = trace st @ dbg @ [T]" "list_all is_print dbg"
      "moved a (heap st) (heap st')"
      "(\<exists>x. T = Call_grpc_Upload instr (remaining st a) x \<and> x = r \<and>
            ui_UploadStrategy instr = UPLOAD_STRATEGY_GRPC) \<or>
       (\<exists>x. T = Call_http_Do MethodPut (ui_SignedUrl instr) (remaining st a) x \<and>
            (x = Inr StatusOK \<longleftrightarrow> r = None) \<and>
            ui_UploadStrategy instr = UPLOAD_STRATEGY_SIGNED_URL)"
proof (cases "ui_UploadStrategy instr")
  case UPLOAD_STRATEGY_UNSPECIFIED
  with assms show ?thesis by (intro no_strategy) (auto simp: upload_dispatch_def)
next
  case UPLOAD_STRATEGY_GRPC
  obtain dbg where dbg: "trace (debug_print fl ''Performing a gRPC upload for %q with Build ID %q.''
                       [ArgStr (u_path u), ArgStr (u_buildID u)] st) = trace st @ dbg" "list_all is_print dbg"
    using debug_print_trace by blast
  with assms UPLOAD_STRATEGY_GRPC show ?thesis
    by (intro transmitted[of dbg]) (auto simp: upload_dispatch_def Let_def remaining_def)
next
  case UPLOAD_STRATEGY_SIGNED_URL
  let ?st1 = "debug_print fl ''Performing a signed URL upload for %q with Build ID %q.''
                       [ArgStr (u_path u), ArgStr (u_buildID u)] st"
  obtain dbg where dbg: "trace ?st1 = trace st @ dbg" "list_all is_print dbg"
    using debug_print_trace by blast
  from assms UPLOAD_STRATEGY_SIGNED_URL
  have "uploadViaSignedURL env ?st1 (ui_SignedUrl instr) (u_reader u) = (st', r)"
    by (simp add: upload_dispatch_def)
  then show ?thesis
  proof (cases rule: uploadViaSignedURL_cases)
    case (invalid_url err)
    with dbg UPLOAD_STRATEGY_SIGNED_URL show ?thesis
      by (intro that(2)[of dbg err]) auto
  next
    case (sent x)
    with dbg UPLOAD_STRATEGY_SIGNED_URL show ?thesis
      by (intro transmitted[of dbg]) (auto simp: remaining_def a_def)
  qed
next
  case (UPLOAD_STRATEGY_unrecognized n)
  with assms show ?thesis by (intro no_strategy) (auto simp: upload_dispatch_def)
qed

lemma upload_initiate_cases [consumes 1,
    case_names hash_failed seek_failed initiate_failed no_instructions no_strategy invalid_url
      transmit_failed transmitted]:
  fixes env :: env and fl :: flags and st :: state and u :: uploadInfo
  defines "a \<equiv> addr_of (u_reader u)"
  defines "H res \<equiv> Call_hash_Reader (remaining st a) res"
  defines "ireq \<equiv> \<lparr>ireq_BuildId = u_buildID u, ireq_Hash = hash_sum env (remaining st a),
                     ireq_Size = u_size u, ireq_Force = Upload_Force fl,
                     ireq_Type = debuginfoTypeStringToPb (Upload_Type fl)\<rparr>"
  defines "pre resp \<equiv> [H (Inr (ireq_Hash ireq)), Call_Seek a None, Call_InitiateUpload ireq resp]"
  defines "failed e \<equiv> Some (Errorf ''upload %q with Build ID %q: %w''
                               [ArgStr (u_path u), ArgStr (u_buildID u)] (Some e))"
  defines "sends instr T \<equiv>
     (\<exists>x. T = Call_grpc_Upload instr (s_bytes (heap st a)) x \<and>
          ui_UploadStrategy instr = UPLOAD_STRATEGY_GRPC) \<or>
     (\<exists>x. T = Call_http_Do MethodPut (ui_SignedUrl instr) (s_bytes (heap st a)) x \<and>
          ui_UploadStrategy instr = UPLOAD_STRATEGY_SIGNED_URL)"
  assumes run: "upload_initiate env fl st u = (st', r)"
  obtains
    (hash_failed) err where "trace st' = trace st @ [H (Inl err)]" "r \<noteq> None"
  | (seek_failed) err where
      "trace st' = trace st @ [H (Inr (ireq_Hash ireq)), Call_Seek a (Some err)]" "r \<noteq> None"
  | (initiate_failed) err where "trace st' = trace st @ pre (Inl err)" "r \<noteq> None"
  | (no_instructions) resp where "trace st' = trace st @ pre (Inr resp)"
      "iresp_UploadInstructions resp = None" "r \<noteq> None"
  | (no_strategy) resp instr dbg where "trace st' = trace st @ pre (Inr resp) @ dbg"
      "list_all is_print dbg" "iresp_UploadInstructions resp = Some instr"
      "ui_UploadStrategy instr \<noteq> UPLOAD_STRATEGY_GRPC"
      "ui_UploadStrategy instr \<noteq> UPLOAD_STRATEGY_SIGNED_URL"
      "r = failed (if ui_UploadStrategy instr = UPLOAD_STRATEGY_UNSPECIFIED
                   then New ''no upload strategy specified''
                   else Errorf ''unknown upload strategy: %v''
                          [ArgStrategy (ui_UploadStrategy instr)] None)"
  | (invalid_url) resp instr dbg where "trace st' = trace st @ pre (Inr resp) @ dbg"
      "list_all is_print dbg" "iresp_UploadInstructions resp = Some instr"
      "ui_UploadStrategy instr = UPLOAD_STRATEGY_SIGNED_URL" "r \<noteq> None"
  | (transmit_failed) resp instr dbg T where "trace st' = trace st @ pre (Inr resp) @ dbg @ [T]"
      "list_all is_print dbg" "iresp_UploadInstructions resp = Some instr" "sends instr T"
      "r \<noteq> None"
  | (transmitted) resp instr dbg T x where
      "trace st' = trace st @ pre (Inr resp) @ dbg @
         [T, Call_MarkUploadFinished \<lparr>mreq_BuildId = u_buildID u, mreq_UploadId = ui_UploadId instr,
               mreq_Type = debuginfoTypeStringToPb (Upload_Type fl)\<rparr> x]"
      "list_all is_print dbg" "iresp_UploadInstructions resp = Some instr" "sends instr T"
      "(x = None) = (r = None)"
proof -
  obtain st1 hres where h: "hash_Reader env st a = (st1, hres)"
    by (cases "hash_Reader env st a")
  note h1 = hash_Reader_eq[OF h]
  show ?thesis
  proof (cases hres)
    case (Inl err)
    with run h h1 show ?thesis
      by (intro hash_failed[of err]) (auto simp: upload_initiate_def a_def H_def)
  next
    case (Inr hash)
    with h1 have hash: "hash = ireq_Hash ireq" by (simp add: ireq_def)
    obtain st2 sres where s: "Seek_SeekStart env st1 (u_reader u) = (st2, sres)"
      by (cases "Seek_SeekStart env st1 (u_reader u)")
    note s1 = Seek_SeekStart_eq[OF s]
    have tr2: "trace st2 = trace st @ [H (Inr (ireq_Hash ireq)), Call_Seek a sres]"
      using h1 s1 Inr hash by (simp add: H_def a_def)
    show ?thesis
    proof (cases sres)
      case (Some err)
      with run h Inr s tr2 show ?thesis
        by (intro seek_failed[of err]) (auto simp: upload_initiate_def a_def)
    next
      case None
      have heap2: "heap st2 = (heap st)(a := (heap st a)\<lparr>s_off := 0\<rparr>)"
        using h1 s1 None by (auto simp: a_def)
      have rem2: "remaining st2 a = s_bytes (heap st a)"
        using heap2 by (simp add: remaining_def)
      define resp where "resp = InitiateUpload env (trace st2) ireq"
      define st3 where "st3 = emit (Call_InitiateUpload ireq resp) st2"
      have tr3: "trace st3 = trace st @ pre resp"
        using tr2 None by (simp add: st3_def pre_def)
      have heap3: "heap st3 = heap st2" by (simp add: st3_def)
      show ?thesis
      proof (cases resp)
        case (Inl err)
        with run h Inr s None hash tr3 show ?thesis
          by (intro initiate_failed[of err])
            (auto simp: upload_initiate_def a_def Let_def ireq_def resp_def st3_def)
      next
        case iresp: (Inr initiationResp)
        show ?thesis
        proof (cases "iresp_UploadInstructions initiationResp")
          case None': None
          from run h Inr s None hash tr3 iresp None' show ?thesis
            by (intro no_instructions[of initiationResp])
              (auto simp: upload_initiate_def a_def Let_def ireq_def resp_def st3_def)
        next
          case (Some instr)
          define st4 where "st4 = debug_print fl
              ''Upload instructions\<newline>BuildID: %s\<newline>UploadID: %s\<newline>UploadStrategy: %s\<newline>SignedURL: %s\<newline>Type: %s\<newline>''
              [ArgStr (ui_BuildId instr), ArgStr (ui_UploadId instr),
               ArgStrategy (ui_UploadStrategy instr),
               ArgStr (ui_SignedUrl instr), ArgType (ui_Type instr)] st3"
          obtain dbg1 where dbg1: "trace st4 = trace st3 @ dbg1" "list_all is_print dbg1"
            unfolding st4_def using debug_print_trace by blast
          have heap4: "heap st4 = heap st2" by (simp add: st4_def heap3)
          have rem4: "remaining st4 a = s_bytes (heap st a)"
            using heap4 rem2 by (simp add: remaining_def)
          obtain st5 dres where d: "upload_dispatch env fl st4 u instr = (st5, dres)"
            by (cases "upload_dispatch env fl st4 u instr")
          have body: "(case dres of Some err \<Rightarrow> (st5, failed err)
                        | None \<Rightarrow> upload_finish env fl st5 u instr) = (st', r)"
            using run h Inr s None hash iresp Some d
            by (cases dres)
              (simp_all add: upload_initiate_def a_def Let_def ireq_def resp_def st3_def st4_def
                failed_def)
          from d show ?thesis
          proof (cases rule: upload_dispatch_cases)
            case no_strategy
            with body tr3 dbg1 iresp Some show ?thesis
              by (intro that(5)[of initiationResp dbg1 instr]) auto
          next
            case (invalid_url dbg err)
            with body tr3 dbg1 iresp Some show ?thesis
              by (intro that(6)[of initiationResp "dbg1 @ dbg" instr]) (auto simp: failed_def)
          next
            case (transmitted dbg T)
            have sends: "sends instr T"
              using transmitted(4) rem4 unfolding sends_def a_def by auto
            show ?thesis
            proof (cases dres)
              case None'': None
              from body None'' have f: "upload_finish env fl st5 u instr = (st', r)" by simp
              from upload_finish_eq[OF f] obtain x where
                x: "trace st' = trace st5 @
                      [Call_MarkUploadFinished \<lparr>mreq_BuildId = u_buildID u,
                         mreq_UploadId = ui_UploadId instr,
                         mreq_Type = debuginfoTypeStringToPb (Upload_Type fl)\<rparr> x]"
                   "(x = None) = (r = None)"
                by blast
              with transmitted tr3 dbg1 iresp Some sends show ?thesis
                by (intro that(8)[of initiationResp "dbg1 @ dbg" T instr x]) auto
            next
              case Some': (Some err)
              with body transmitted tr3 dbg1 iresp Some sends show ?thesis
                by (intro that(7)[of initiationResp "dbg1 @ dbg" T instr]) (auto simp: failed_def)
            qed
          qed
        qed
      qed
    qed
  qed
qed

lemma upload_artifact_cases [consumes 1, case_names dedup_failed skipped dry_run initiating]:
  fixes env :: env and fl :: flags and st :: state and u :: uploadInfo
  defines "D resp \<equiv> Call_ShouldInitiateUpload
     \<lparr>sreq_BuildId = u_buildID u, sreq_Force = Upload_Force fl,
        sreq_Type = debuginfoTypeStringToPb (Upload_Type fl)\<rparr> resp"
  assumes run: "upload_artifact env fl st u = (st', r)"
  obtains
    (dedup_failed) err where "st' = emit (D (Inl err)) st" "r \<noteq> None"
  | (skipped) resp fmt args where "\<not> sresp_ShouldInitiateUpload resp"
      "st' = emit (Print_Stdout fmt args) (emit (D (Inr resp)) st)" "r = None"
  | (dry_run) resp fmt args where "sresp_ShouldInitiateUpload resp" "Upload_NoInitiate fl"
      "st' = emit (Print_Stdout fmt args) (emit (D (Inr resp)) st)" "r = None"
  | (initiating) resp where "sresp_ShouldInitiateUpload resp" "\<not> Upload_NoInitiate fl"
      "upload_initiate env fl (emit (D (Inr resp)) st) u = (st', r)"
  using run unfolding upload_artifact_def D_def Let_def
  by (auto split: sum.splits if_splits)

lemma prints_not_protocol: "list_all is_print dbg \<Longrightarrow> ev \<in> set dbg \<Longrightarrow> is_print ev"
  by (simp add: list_all_iff)

lemma is_print_simps2 [simp]:
  "is_print ev \<Longrightarrow> transmitted ev = None"
  "is_print ev \<Longrightarrow> step_of ev = None"
  "is_print ev \<Longrightarrow> \<not> is_protocol_event ev"
  by (auto elim: is_print.elims)

lemmas run_defs = run_def run_upload_def collect_uploads_def close_reader_def grpcConn_def extractAll_def uploadViaSignedURL_def
  upload_artifact_def upload_initiate_def upload_dispatch_def upload_finish_def
  hash_Reader_def Seek_SeekStart_def debug_print_def emit_def alloc_def remaining_def
  read_to_end_def rewind_def init_state_def debuginfoTypeStringToPb_def errors_Join_def
  LogLevelDebug_def StatusOK_def MethodPut_def resolve_buildID_def range_order_def
  run_extract_def run_source_def run_buildid_def new_events_def

lemmas demo_defs = demo_env_def demo_flags_def demo_instructions_def demo_upload_def demo_state_def

section \<open>The phases of the upload command\<close>

lemma adds_mono:
  "adds (list_all K) st st' \<Longrightarrow> (\<And>ev. K ev \<Longrightarrow> K' ev) \<Longrightarrow> adds (list_all K') st st'"
  by (auto simp: adds_def list_all_iff)

lemma adds_trans:
  "adds (list_all K) st0 st \<Longrightarrow> adds (list_all K) st st' \<Longrightarrow> adds (list_all K) st0 st'"
  by (auto simp: adds_def)

lemma adds_append:
  "adds P st st1 \<Longrightarrow> adds Q st1 st2 \<Longrightarrow>
     new_events st st2 = new_events st st1 @ new_events st1 st2 \<and>
     trace st2 = trace st @ new_events st st2"
  by (auto simp: adds_def)

lemma not_protocol_request_Type: "\<not> is_protocol_event ev \<Longrightarrow> request_Type ev = None"
  by (cases ev) auto

lemma is_print_request_Type [simp]: "is_print ev \<Longrightarrow> request_Type ev = None"
  by (auto elim: is_print.elims)

lemma not_protocol_not_transmitted: "\<not> is_protocol_event ev \<Longrightarrow> transmitted ev = None"
  by (cases ev) auto

lemma grpcConn_adds:
  assumes "\<And>p x. K (Call_os_ReadFile p x)" "\<And>p x. K (Call_grpc_Dial p x)"
  shows "adds (list_all K) st0 st \<Longrightarrow> grpcConn env st fl = (st', r) \<Longrightarrow> adds (list_all K) st0 st'"
  by (auto simp: grpcConn_def Let_def assms split: if_splits sum.splits intro!: adds_emit)

lemma collect_extract_adds:
  assumes "\<And>p x. K (Call_elf_Open p x)" "\<And>p x. K (Call_buildid_FromELF p x)"
  shows "adds (list_all K) st0 st \<Longrightarrow> collect_extract env st paths srcDst uploads = (st', r) \<Longrightarrow>
         adds (list_all K) st0 st'"
proof (induction paths arbitrary: st srcDst uploads)
  case Nil
  then show ?case by simp
next
  case (Cons path paths)
  from Cons.prems show ?case
    by (auto simp: Let_def assms split: option.splits sum.splits prod.splits
        intro!: adds_emit elim!: Cons.IH[rotated] adds_alloc[rotated])
qed

lemma extractAll_loop_adds:
  assumes "\<And>p x. K (Call_os_Open p x)" "\<And>f p d x. K (Call_extractFn f p d x)"
    "\<And>f a x. K (Print_Stderr f a x)"
  shows "adds (list_all K) st0 st \<Longrightarrow> extractAll_loop env mode st srcDsts result = (st', r) \<Longrightarrow>
         adds (list_all K) st0 st'"
proof (induction srcDsts arbitrary: st result mode)
  case Nil
  then show ?case by simp
next
  case (Cons sd srcDsts)
  obtain src dst where sd: "sd = (src, dst)" by (cases sd)
  from Cons.prems show ?case unfolding sd
    by (auto simp: Let_def assms split: option.splits sum.splits prod.splits if_splits
        intro!: adds_emit elim!: Cons.IH[rotated])
qed

lemma upload_artifact_events:
  assumes "upload_artifact env fl st u = (st', r)"
  shows "adds (list_all (\<lambda>ev. is_protocol_event ev \<or> is_print ev)) st st'"
  using assms
proof (cases rule: upload_artifact_cases)
  case (initiating resp)
  from initiating(3) show ?thesis
    by (cases rule: upload_initiate_cases) (auto simp: adds_def list_all_iff)
qed (auto simp: adds_def)

lemma upload_loop_events:
  "upload_loop env fl st uploads = (st', r) \<Longrightarrow>
     adds (list_all (\<lambda>ev. is_protocol_event ev \<or> is_print ev)) st st'"
proof (induction uploads arbitrary: st)
  case Nil
  then show ?case by simp
next
  case (Cons u uploads)
  obtain st1 r1 where a: "upload_artifact env fl st u = (st1, r1)"
    by (cases "upload_artifact env fl st u")
  note t = upload_artifact_events[OF a]
  show ?case
  proof (cases r1)
    case None
    with Cons.prems a have "upload_loop env fl st1 uploads = (st', r)" by simp
    from adds_trans[OF t Cons.IH[OF this]] show ?thesis .
  next
    case (Some err)
    with Cons.prems a t show ?thesis by simp
  qed
qed

lemma collect_files_sizes:
  "collect_files env fl st paths uploads = (st', Inr ups) \<Longrightarrow> \<forall>u\<in>set uploads. u_size u \<noteq> 0 \<Longrightarrow>
     \<forall>u\<in>set ups. u_size u \<noteq> 0"
proof (induction paths arbitrary: st uploads)
  case Nil
  then show ?case by simp
next
  case (Cons path paths)
  from Cons.prems show ?case
    by (auto simp: Let_def split: prod.splits sum.splits if_splits dest!: Cons.IH)
qed

lemma sizes_after_extraction_sizes:
  "sizes_after_extraction st uploads = (st', Inr ups) \<Longrightarrow> \<forall>u\<in>set ups. u_size u \<noteq> 0"
proof (induction uploads arbitrary: st ups)
  case Nil
  then show ?case by simp
next
  case (Cons u uploads)
  from Cons.prems show ?case
    by (auto simp: Let_def split: reader.splits prod.splits sum.splits if_splits dest!: Cons.IH)
qed

lemma resolve_buildID_heap:
  "resolve_buildID env fl st path = (st1, b) \<Longrightarrow> heap st1 = heap st \<and> next_addr st1 = next_addr st"
  by (auto simp: resolve_buildID_def Let_def split: if_splits option.splits sum.splits)

lemma collect_files_readers:
  "collect_files env fl st paths uploads = (st', Inr ups) \<Longrightarrow>
   distinct (map (\<lambda>u. addr_of (u_reader u)) uploads) \<Longrightarrow>
   \<forall>u\<in>set uploads. addr_of (u_reader u) < next_addr st \<and> s_off (heap st (addr_of (u_reader u))) = 0 \<Longrightarrow>
   distinct (map (\<lambda>u. addr_of (u_reader u)) ups) \<and>
   (\<forall>u\<in>set ups. s_off (heap st' (addr_of (u_reader u))) = 0)"
proof (induction paths arbitrary: st uploads)
  case Nil
  then show ?case by auto
next
  case (Cons path paths)
  from Cons.prems(1) obtain st1 buildID content Size where
    b: "resolve_buildID env fl st path = (st1, Inr buildID)" and
    rec: "collect_files env fl
            (emit (Call_Stat path (Inr Size))
               (snd (alloc content (emit (Call_os_Open path None) st1))))
            paths
            (uploads @ [\<lparr>u_buildID = buildID, u_path = path,
                         u_reader = OsFile (next_addr st1), u_size = Size\<rparr>])
          = (st', Inr ups)"
    by (auto simp: Let_def alloc_def split: prod.splits sum.splits if_splits)
  note h = resolve_buildID_heap[OF b]
  show ?case
    using Cons.prems(2,3) h
    by (intro Cons.IH[OF rec]) (auto simp: alloc_def)
qed

lemma collect_extract_distinct:
  "collect_extract env st paths srcDst uploads = (st', Inr (srcDst', ups)) \<Longrightarrow>
   distinct (map (\<lambda>u. addr_of (u_reader u)) uploads) \<Longrightarrow>
   \<forall>u\<in>set uploads. addr_of (u_reader u) < next_addr st \<Longrightarrow>
   distinct (map (\<lambda>u. addr_of (u_reader u)) ups)"
proof (induction paths arbitrary: st srcDst uploads)
  case Nil
  then show ?case by auto
next
  case (Cons path paths)
  from Cons.prems(1) obtain buildID where
    rec: "collect_extract env
            (snd (alloc [] (emit (Call_buildid_FromELF path (Inr buildID))
                              (emit (Call_elf_Open path None) st))))
            paths (AList.update path (next_addr st) srcDst)
            (uploads @ [\<lparr>u_buildID = buildID, u_path = path,
                         u_reader = Flexbuf (next_addr st), u_size = 0\<rparr>])
          = (st', Inr (srcDst', ups))"
    by (auto simp: Let_def alloc_def split: option.splits prod.splits sum.splits)
  show ?case
    using Cons.prems(2,3)
    by (intro Cons.IH[OF rec]) (auto simp: alloc_def)
qed

lemma sizes_after_extraction_rewound:
  "sizes_after_extraction st uploads = (st', res) \<Longrightarrow>
     (\<forall>b. s_off (heap st b) = 0 \<longrightarrow> s_off (heap st' b) = 0) \<and>
     (\<forall>ups. res = Inr ups \<longrightarrow>
        map u_reader ups = map u_reader uploads \<and>
        (\<forall>u\<in>set ups. s_off (heap st' (addr_of (u_reader u))) = 0))"
proof (induction uploads arbitrary: st st' res)
  case Nil
  then show ?case by auto
next
  case (Cons u uploads)
  show ?case
  proof (cases "u_reader u")
    case (OsFile f)
    with Cons.prems show ?thesis by auto
  next
    case (Flexbuf buf)
    obtain st2 r2 where r2: "sizes_after_extraction (rewind buf st) uploads = (st2, r2)"
      by (cases "sizes_after_extraction (rewind buf st) uploads")
    note ih = Cons.IH[OF r2]
    have z: "s_off (heap st2 buf) = 0" using ih by simp
    show ?thesis
    proof (cases "length (s_bytes (heap st buf)) = 0")
      case True
      with Cons.prems Flexbuf show ?thesis by (auto simp: Let_def)
    next
      case False
      with Cons.prems Flexbuf r2 ih z show ?thesis
        by (cases r2) (auto simp: Let_def)
    qed
  qed
qed

lemma same_readers_same_addrs:
  "map u_reader xs = map u_reader ys \<Longrightarrow>
     map (\<lambda>u. addr_of (u_reader u)) xs = map (\<lambda>u. addr_of (u_reader u)) ys"
proof (induction xs arbitrary: ys)
  case Nil
  then show ?case by simp
next
  case (Cons x xs)
  then show ?case by (cases ys) auto
qed

lemma run_upload_phases [consumes 1, case_names stopped uploading]:
  assumes "run_upload env fl st = (st', r)"
  obtains (stopped) "quiet st st'" "r \<noteq> None"
  | (uploading) st2 uploads where "quiet st st2" "upload_loop env fl st2 uploads = (st', r)"
      "\<forall>u\<in>set uploads. u_size u \<noteq> 0"
      "distinct (map (\<lambda>u. addr_of (u_reader u)) uploads)"
      "\<forall>u\<in>set uploads. s_off (heap st2 (addr_of (u_reader u))) = 0"
      "\<exists>st1. grpcConn env st fl = (st1, None) \<and> collect_uploads env fl st1 = (st2, Inr uploads)"
proof -
  obtain st1 c where c: "grpcConn env st fl = (st1, c)" by (cases "grpcConn env st fl")
  have q1: "quiet st st1" using grpcConn_quiet[OF _ c] by simp
  show ?thesis
  proof (cases c)
    case (Some err)
    with assms c q1 show ?thesis by (intro stopped) (auto simp: run_upload_def collect_uploads_def)
  next
    case None
    show ?thesis
    proof (cases "\<not> Upload_NoExtract fl \<and> Upload_Type fl = ''debuginfo''")
      case True
      obtain st2 ce where ce: "collect_extract env st1 (Upload_Paths fl) [] [] = (st2, ce)"
        by (cases "collect_extract env st1 (Upload_Paths fl) [] []")
      have q2: "quiet st st2" using collect_extract_quiet[OF q1 ce] .
      show ?thesis
      proof (cases ce)
        case (Inl err)
        with assms c None True ce q2 show ?thesis by (intro stopped) (auto simp: run_upload_def collect_uploads_def)
      next
        case (Inr p)
        obtain srcDst uploads where p: "p = (srcDst, uploads)" by (cases p)
        show ?thesis
        proof (cases "length srcDst = 0")
          case True': True
          with assms c None True ce Inr p q2 show ?thesis
            by (intro stopped) (auto simp: run_upload_def collect_uploads_def)
        next
          case False
          obtain st3 x where x: "extractAll env (Extract_Mode fl) st2 srcDst = (st3, x)"
            by (cases "extractAll env (Extract_Mode fl) st2 srcDst")
          have q3: "quiet st st3" using extractAll_quiet[OF q2 x] .
          obtain st4 sz where sz: "sizes_after_extraction st3 uploads = (st4, sz)"
            by (cases "sizes_after_extraction st3 uploads")
          have q4: "quiet st st4"
            using q3 sizes_after_extraction_trace[OF sz] by (simp add: adds_def)
          show ?thesis
          proof (cases x)
            case (Some err)
            with assms c None True ce Inr p False x q3 show ?thesis
              by (intro stopped) (auto simp: run_upload_def collect_uploads_def)
          next
            case None': None
            show ?thesis
            proof (cases sz)
              case (Inl err)
              with assms c None True ce Inr p False x None' sz q4 show ?thesis
                by (intro stopped) (auto simp: run_upload_def collect_uploads_def)
            next
              case (Inr uploads1)
              from ce \<open>ce = Inr p\<close> p
              have "distinct (map (\<lambda>u. addr_of (u_reader u)) uploads)"
                by (intro collect_extract_distinct[of env st1 "Upload_Paths fl" "[]" "[]" st2 srcDst uploads])
                  auto
              moreover from sizes_after_extraction_rewound[OF sz] Inr
              have "map u_reader uploads1 = map u_reader uploads"
                "\<forall>u\<in>set uploads1. s_off (heap st4 (addr_of (u_reader u))) = 0"
                by auto
              ultimately have rd: "distinct (map (\<lambda>u. addr_of (u_reader u)) uploads1)"
                "\<forall>u\<in>set uploads1. s_off (heap st4 (addr_of (u_reader u))) = 0"
                using same_readers_same_addrs[of uploads1 uploads] by simp_all
              from assms c None True ce \<open>ce = Inr p\<close> p False x None' sz q4 Inr
                sizes_after_extraction_sizes[of st3 uploads st4 uploads1] rd
              show ?thesis
                by (intro uploading[of st4 uploads1]) (auto simp: run_upload_def collect_uploads_def)
            qed
          qed
        qed
      qed
    next
      case False
      obtain st2 cf where cf: "collect_files env fl st1 (Upload_Paths fl) [] = (st2, cf)"
        by (cases "collect_files env fl st1 (Upload_Paths fl) []")
      have q2: "quiet st st2" using collect_files_quiet[OF q1 cf] .
      show ?thesis
      proof (cases cf)
        case (Inl err)
        with assms c None False cf q2 show ?thesis by (intro stopped) (auto simp: run_upload_def collect_uploads_def)
      next
        case (Inr uploads)
        with cf have rd: "distinct (map (\<lambda>u. addr_of (u_reader u)) uploads)"
          "\<forall>u\<in>set uploads. s_off (heap st2 (addr_of (u_reader u))) = 0"
          using collect_files_readers[of env fl st1 "Upload_Paths fl" "[]" st2 uploads] by auto
        from Inr assms c None False cf q2 rd
          collect_files_sizes[of env fl st1 "Upload_Paths fl" "[]" st2 uploads]
        show ?thesis
          by (intro uploading[of st2 uploads]) (auto simp: run_upload_def collect_uploads_def)
      qed
    qed
  qed
qed

section \<open>The claims\<close>

subsection \<open>C1: the hash is the hash of the bytes sent\<close>

lemma unique_split:
  "A @ T # B = pre @ T' # post \<Longrightarrow> list_all (\<lambda>ev. f ev = None) A \<Longrightarrow>
   list_all (\<lambda>ev. f ev = None) B \<Longrightarrow> f T' \<noteq> None \<Longrightarrow> pre = A \<and> T' = T \<and> post = B"
proof (induction A arbitrary: pre)
  case Nil
  then show ?case by (cases pre) (auto simp: list_all_iff)
next
  case (Cons a A)
  then show ?case by (cases pre) (auto simp: list_all_iff)
qed

lemma hash_sent_silent: "list_all (\<lambda>ev. transmitted ev = None) evs \<Longrightarrow> hash_sent env c evs"
  by (auto simp: hash_sent_def list_all_iff)

lemma hash_sent_append:
  assumes "hash_sent env c xs" "hash_sent env c ys"
  shows "hash_sent env c (xs @ ys)"
  unfolding hash_sent_def
proof (intro allI impI)
  fix pre T post bs
  assume h: "xs @ ys = pre @ T # post \<and> transmitted T = Some bs"
  then consider (left) us where "xs = pre @ T # us" "post = us @ ys"
    | (right) us where "pre = xs @ us" "ys = us @ T # post"
    by (auto simp: append_eq_append_conv2 append_eq_Cons_conv Cons_eq_append_conv)
  then show "\<exists>pre1 a req resp dbg.
           pre = pre1 @ [Call_hash_Reader bs (Inr (hash_sum env bs)), Call_Seek a None,
                         Call_InitiateUpload req resp] @ dbg \<and>
           list_all is_print dbg \<and> ireq_Hash req = hash_sum env bs \<and> c a = Some bs"
  proof cases
    case left
    with assms(1) h show ?thesis unfolding hash_sent_def by blast
  next
    case right
    with assms(2) h obtain pre1 a req resp dbg where
      "us = pre1 @ [Call_hash_Reader bs (Inr (hash_sum env bs)), Call_Seek a None,
                         Call_InitiateUpload req resp] @ dbg"
      "list_all is_print dbg" "ireq_Hash req = hash_sum env bs" "c a = Some bs"
      unfolding hash_sent_def by blast
    with right show ?thesis
      by (intro exI[of _ "xs @ pre1"] exI[of _ a] exI[of _ req] exI[of _ resp] exI[of _ dbg]) simp
  qed
qed

lemma hash_sent_upload:
  assumes "list_all (\<lambda>ev. transmitted ev = None) xs" "list_all is_print dbg"
    "transmitted T = Some bs0" "ireq_Hash req = hash_sum env bs0" "c a = Some bs0"
    "list_all (\<lambda>ev. transmitted ev = None) post0"
  shows "hash_sent env c
           (xs @ [Call_hash_Reader bs0 (Inr (hash_sum env bs0)), Call_Seek a None,
                  Call_InitiateUpload req resp] @ dbg @ T # post0)"
  unfolding hash_sent_def
proof (intro allI impI)
  fix pre T' post bs
  let ?A = "xs @ [Call_hash_Reader bs0 (Inr (hash_sum env bs0)), Call_Seek a None,
                  Call_InitiateUpload req resp] @ dbg"
  assume h: "xs @ [Call_hash_Reader bs0 (Inr (hash_sum env bs0)), Call_Seek a None,
                  Call_InitiateUpload req resp] @ dbg @ T # post0 = pre @ T' # post \<and>
             transmitted T' = Some bs"
  have A: "list_all (\<lambda>ev. transmitted ev = None) ?A"
    using assms(1,2) by (auto simp: list_all_iff dest: is_print_simps2(1))
  from h have "?A @ T # post0 = pre @ T' # post" by simp
  from unique_split[OF this A assms(6), of ] h
  have "pre = ?A \<and> T' = T \<and> post = post0" by simp
  with h assms show "\<exists>pre1 a req resp dbg.
           pre = pre1 @ [Call_hash_Reader bs (Inr (hash_sum env bs)), Call_Seek a None,
                         Call_InitiateUpload req resp] @ dbg \<and>
           list_all is_print dbg \<and> ireq_Hash req = hash_sum env bs \<and> c a = Some bs"
    by (intro exI[of _ xs] exI[of _ a] exI[of _ req] exI[of _ resp] exI[of _ dbg]) simp
qed

lemma upload_dispatch_moved:
  assumes "upload_dispatch env fl st u instr = (st', r)"
  shows "moved (addr_of (u_reader u)) (heap st) (heap st')"
  using assms by (cases rule: upload_dispatch_cases) auto

lemma upload_initiate_moved:
  assumes "upload_initiate env fl st u = (st', r)"
  shows "moved (addr_of (u_reader u)) (heap st) (heap st')"
proof -
  let ?a = "addr_of (u_reader u)"
  obtain st1 hres where h: "hash_Reader env st ?a = (st1, hres)"
    by (cases "hash_Reader env st ?a")
  have m1: "moved ?a (heap st) (heap st1)" using hash_Reader_eq[OF h] by simp
  show ?thesis
  proof (cases hres)
    case (Inl err)
    with assms h m1 show ?thesis by (simp add: upload_initiate_def)
  next
    case (Inr hash)
    obtain st2 sres where s: "Seek_SeekStart env st1 (u_reader u) = (st2, sres)"
      by (cases "Seek_SeekStart env st1 (u_reader u)")
    have "moved ?a (heap st1) (heap st2)"
      using Seek_SeekStart_eq[OF s] by (cases sres) auto
    with m1 have m2: "moved ?a (heap st) (heap st2)" by (rule moved_trans)
    show ?thesis
    proof (cases sres)
      case (Some err)
      with assms h Inr s m2 show ?thesis by (simp add: upload_initiate_def)
    next
      case None
      show ?thesis
        using assms h Inr s None m2
        by (auto simp: upload_initiate_def Let_def
            split: sum.splits option.splits prod.splits
            dest!: upload_dispatch_moved upload_finish_eq elim: moved_trans)
    qed
  qed
qed

lemma upload_artifact_moved:
  assumes "upload_artifact env fl st u = (st', r)"
  shows "moved (addr_of (u_reader u)) (heap st) (heap st')"
  using assms
proof (cases rule: upload_artifact_cases)
  case (initiating resp)
  from upload_initiate_moved[OF initiating(3)] show ?thesis by simp
qed auto

lemma upload_artifact_hash_sent:
  assumes run: "upload_artifact env fl st u = (st', r)"
    and off: "s_off (heap st (addr_of (u_reader u))) = 0"
    and c: "c (addr_of (u_reader u)) = Some (s_bytes (heap st (addr_of (u_reader u))))"
  shows "adds (hash_sent env c) st st'"
proof -
  have rem: "remaining st (addr_of (u_reader u)) = s_bytes (heap st (addr_of (u_reader u)))"
    using off by (simp add: remaining_def)
  have silent: "adds (hash_sent env c) st st'"
    if "trace st' = trace st @ evs" "list_all (\<lambda>ev. transmitted ev = None) evs" for evs
    using that by (auto simp: adds_def intro: hash_sent_silent)
  from run show ?thesis
  proof (cases rule: upload_artifact_cases)
    case (dedup_failed err)
    then show ?thesis by (intro silent[of "[_]"]) auto
  next
    case (skipped resp fmt args)
    then show ?thesis by (intro silent[of "[_, _]"]) auto
  next
    case (dry_run resp fmt args)
    then show ?thesis by (intro silent[of "[_, _]"]) auto
  next
    case (initiating resp)
    let ?D = "Call_ShouldInitiateUpload
          \<lparr>sreq_BuildId = u_buildID u, sreq_Force = Upload_Force fl,
             sreq_Type = debuginfoTypeStringToPb (Upload_Type fl)\<rparr> (Inr resp)"
    from initiating(3) show ?thesis
    proof (cases rule: upload_initiate_cases)
      case (hash_failed err)
      then show ?thesis by (intro silent[of "[_, _]"]) auto
    next
      case (seek_failed err)
      then show ?thesis by (intro silent[of "[_, _, _]"]) auto
    next
      case (initiate_failed err)
      then show ?thesis by (intro silent[of "[_, _, _, _]"]) auto
    next
      case (no_instructions resp)
      then show ?thesis by (intro silent[of "[_, _, _, _]"]) auto
    next
      case (no_strategy resp instr dbg)
      then show ?thesis
        by (intro silent[of "[_, _, _, _] @ dbg"]) (auto simp: list_all_iff dest: is_print_simps2(1))
    next
      case (invalid_url resp instr dbg)
      then show ?thesis
        by (intro silent[of "[_, _, _, _] @ dbg"]) (auto simp: list_all_iff dest: is_print_simps2(1))
    next
      case (transmit_failed resp' instr dbg T)
      have "hash_sent env c ([?D] @ [Call_hash_Reader (s_bytes (heap st (addr_of (u_reader u))))
                (Inr (hash_sum env (s_bytes (heap st (addr_of (u_reader u)))))),
              Call_Seek (addr_of (u_reader u)) None,
              Call_InitiateUpload \<lparr>ireq_BuildId = u_buildID u,
                 ireq_Hash = hash_sum env (s_bytes (heap st (addr_of (u_reader u)))),
                 ireq_Size = u_size u, ireq_Force = Upload_Force fl,
                 ireq_Type = debuginfoTypeStringToPb (Upload_Type fl)\<rparr> (Inr resp')] @ dbg @ T # [])"
        using transmit_failed(2,4) c by (intro hash_sent_upload) auto
      with transmit_failed(1) rem show ?thesis by (auto simp: adds_def)
    next
      case (transmitted resp' instr dbg T x)
      have "hash_sent env c ([?D] @ [Call_hash_Reader (s_bytes (heap st (addr_of (u_reader u))))
                (Inr (hash_sum env (s_bytes (heap st (addr_of (u_reader u)))))),
              Call_Seek (addr_of (u_reader u)) None,
              Call_InitiateUpload \<lparr>ireq_BuildId = u_buildID u,
                 ireq_Hash = hash_sum env (s_bytes (heap st (addr_of (u_reader u)))),
                 ireq_Size = u_size u, ireq_Force = Upload_Force fl,
                 ireq_Type = debuginfoTypeStringToPb (Upload_Type fl)\<rparr> (Inr resp')] @ dbg @ T #
              [Call_MarkUploadFinished \<lparr>mreq_BuildId = u_buildID u, mreq_UploadId = ui_UploadId instr,
               mreq_Type = debuginfoTypeStringToPb (Upload_Type fl)\<rparr> x])"
        using transmitted(2,4) c by (intro hash_sent_upload) auto
      with transmitted(1) rem show ?thesis by (auto simp: adds_def)
    qed
  qed
qed

lemma adds_hash_sent_trans:
  "adds (hash_sent env c) st st1 \<Longrightarrow> adds (hash_sent env c) st1 st2 \<Longrightarrow>
     adds (hash_sent env c) st st2"
  by (auto simp: adds_def intro: hash_sent_append)

lemma upload_loop_hash_sent:
  "upload_loop env fl st ups = (st', r) \<Longrightarrow>
   distinct (map (\<lambda>u. addr_of (u_reader u)) ups) \<Longrightarrow>
   \<forall>u\<in>set ups. s_off (heap st (addr_of (u_reader u))) = 0 \<and>
                c (addr_of (u_reader u)) = Some (s_bytes (heap st (addr_of (u_reader u)))) \<Longrightarrow>
   adds (hash_sent env c) st st'"
proof (induction ups arbitrary: st)
  case Nil
  then show ?case by (auto simp: adds_def hash_sent_def)
next
  case (Cons u ups)
  obtain st1 r1 where a: "upload_artifact env fl st u = (st1, r1)"
    by (cases "upload_artifact env fl st u")
  have p1: "adds (hash_sent env c) st st1"
    using a Cons.prems(3) by (intro upload_artifact_hash_sent) auto
  note m = upload_artifact_moved[OF a]
  show ?case
  proof (cases r1)
    case (Some err)
    with Cons.prems(1) a p1 show ?thesis by auto
  next
    case None
    with Cons.prems(1) a have rec: "upload_loop env fl st1 ups = (st', r)" by simp
    have "\<forall>v\<in>set ups. s_off (heap st1 (addr_of (u_reader v))) = 0 \<and>
            c (addr_of (u_reader v)) = Some (s_bytes (heap st1 (addr_of (u_reader v))))"
    proof
      fix v
      assume v: "v \<in> set ups"
      from Cons.prems(2)
      have "addr_of (u_reader u) \<notin> (\<lambda>u. addr_of (u_reader u)) ` set ups" by simp
      with v have "addr_of (u_reader v) \<noteq> addr_of (u_reader u)" by (metis image_eqI)
      from movedD[OF m this] Cons.prems(3) v
      show "s_off (heap st1 (addr_of (u_reader v))) = 0 \<and>
            c (addr_of (u_reader v)) = Some (s_bytes (heap st1 (addr_of (u_reader v))))" by simp
    qed
    moreover have "distinct (map (\<lambda>u. addr_of (u_reader u)) ups)" using Cons.prems(2) by simp
    ultimately have "adds (hash_sent env c) st1 st'"
      using Cons.IH[OF rec] by blast
    with p1 show ?thesis by (rule adds_hash_sent_trans)
  qed
qed

text \<open>
  C1. In a run of the upload command, every transmission (gRPC stream or PUT) of bytes
  \<open>bs\<close> comes right after, in this order: the hash computed over these same bytes \<open>bs\<close>
  (the stream read from its offset to its end), the rewind of the stream to offset 0,
  and the \<^verbatim>\<open>InitiateUpload\<close> request, whose hash is the hash of \<open>bs\<close>; only debug
  messages stand between the request and the transmission. The stream is that of one of
  the artifacts the collecting step handed to the loop, and the bytes \<open>bs\<close> are its whole
  content as the collecting step left it, at offset 0 (a file just opened, a scratch
  buffer rewound after the extraction): each artifact has a stream of its own, which no
  call touches before its turn.
\<close>

theorem hash_is_of_the_bytes_sent:
  assumes "run_upload env fl st = (st', r)"
  shows "trace st' = trace st @ new_events st st' \<and>
         (\<forall>pre T post bs.
            new_events st st' = pre @ T # post \<and> transmitted T = Some bs \<longrightarrow>
              (\<exists>pre1 a req resp dbg st1 st2 uploads.
                 pre = pre1 @ [Call_hash_Reader bs (Inr (hash_sum env bs)), Call_Seek a None,
                               Call_InitiateUpload req resp] @ dbg \<and>
                 list_all is_print dbg \<and> ireq_Hash req = hash_sum env bs \<and>
                 grpcConn env st fl = (st1, None) \<and>
                 collect_uploads env fl st1 = (st2, Inr uploads) \<and>
                 a \<in> (\<lambda>u. addr_of (u_reader u)) ` set uploads \<and>
                 s_off (heap st2 a) = 0 \<and> bs = s_bytes (heap st2 a)))"
proof -
  have silent: "adds (hash_sent env c) s s'" if "quiet s s'" for s s' c
  proof -
    from that obtain evs where
      evs: "trace s' = trace s @ evs" "list_all (\<lambda>ev. \<not> is_protocol_event ev) evs"
      unfolding adds_def by blast
    from evs(2) have "list_all (\<lambda>ev. transmitted ev = None) evs"
      by (simp add: list_all_iff not_protocol_not_transmitted)
    then have "hash_sent env c evs" by (rule hash_sent_silent)
    with evs(1) show ?thesis unfolding adds_def by blast
  qed
  from assms show ?thesis
  proof (cases rule: run_upload_phases)
    case stopped
    from silent[OF stopped(1), of Map.empty] obtain evs where
      evs: "trace st' = trace st @ evs" "hash_sent env Map.empty evs"
      unfolding adds_def by blast
    then have ne: "new_events st st' = evs" by simp
    from evs(2) have "\<not> (evs = pre @ T # post \<and> transmitted T = Some bs)" for pre T post bs
      unfolding hash_sent_def by fastforce
    with evs(1) show ?thesis unfolding ne by blast
  next
    case (uploading st2 uploads)
    define c where "c = (\<lambda>a. if a \<in> (\<lambda>u. addr_of (u_reader u)) ` set uploads \<and> s_off (heap st2 a) = 0
                             then Some (s_bytes (heap st2 a)) else None)"
    from uploading(6) obtain st1 where
      st1: "grpcConn env st fl = (st1, None)" "collect_uploads env fl st1 = (st2, Inr uploads)"
      by blast
    have "\<forall>u\<in>set uploads. s_off (heap st2 (addr_of (u_reader u))) = 0 \<and>
            c (addr_of (u_reader u)) = Some (s_bytes (heap st2 (addr_of (u_reader u))))"
      using uploading(5) by (simp add: c_def)
    from upload_loop_hash_sent[OF uploading(2,4) this]
    have "adds (hash_sent env c) st2 st'" .
    with silent[OF uploading(1)] have "adds (hash_sent env c) st st'"
      by (rule adds_hash_sent_trans)
    then obtain evs where evs: "trace st' = trace st @ evs" "hash_sent env c evs"
      unfolding adds_def by blast
    then have ne: "new_events st st' = evs" by simp
    have "\<exists>pre1 a req resp dbg st1 st2 uploads.
                 pre = pre1 @ [Call_hash_Reader bs (Inr (hash_sum env bs)), Call_Seek a None,
                               Call_InitiateUpload req resp] @ dbg \<and>
                 list_all is_print dbg \<and> ireq_Hash req = hash_sum env bs \<and>
                 grpcConn env st fl = (st1, None) \<and>
                 collect_uploads env fl st1 = (st2, Inr uploads) \<and>
                 a \<in> (\<lambda>u. addr_of (u_reader u)) ` set uploads \<and>
                 s_off (heap st2 a) = 0 \<and> bs = s_bytes (heap st2 a)"
      if h: "evs = pre @ T # post" "transmitted T = Some bs" for pre T post bs
    proof -
      from evs(2) h obtain pre1 a req resp dbg where
        p: "pre = pre1 @ [Call_hash_Reader bs (Inr (hash_sum env bs)), Call_Seek a None,
                          Call_InitiateUpload req resp] @ dbg"
           "list_all is_print dbg" "ireq_Hash req = hash_sum env bs" "c a = Some bs"
        unfolding hash_sent_def by blast
      from p(4) have "a \<in> (\<lambda>u. addr_of (u_reader u)) ` set uploads" "s_off (heap st2 a) = 0"
        "bs = s_bytes (heap st2 a)"
        by (simp_all add: c_def split: if_splits)
      with p(1,2,3) st1 show ?thesis by blast
    qed
    with evs(1) ne show ?thesis by simp
  qed
qed

text \<open>
  The run of the concrete environment, with a store that asks for the signed URL: one
  artifact, extracted, hashed, sent. What was sent is the content of the scratch buffer
  as the collecting step left it; the buffer itself is empty at the end.
\<close>

theorem hash_is_of_the_bytes_sent_witness:
  "new_events init_state
     (fst (run_upload (unspecified_env UPLOAD_STRATEGY_SIGNED_URL) demo_flags init_state)) =
     [Call_grpc_Dial ''store:443'' None, Call_elf_Open ''a.out'' None,
      Call_buildid_FromELF ''a.out'' (Inr ''abc''), Call_os_Open ''a.out'' None,
      Call_extractFn ''OnlyKeepDebug'' ''a.out'' 0 None,
      Call_ShouldInitiateUpload
        \<lparr>sreq_BuildId = ''abc'', sreq_Force = False, sreq_Type = DEBUGINFO_TYPE_DEBUGINFO_UNSPECIFIED\<rparr>
        (Inr \<lparr>sresp_ShouldInitiateUpload = True, sresp_Reason = ''new''\<rparr>)] @
     Call_hash_Reader [1, 2, 3] (Inr ''hhh'') # Call_Seek 0 None #
     Call_InitiateUpload
        \<lparr>ireq_BuildId = ''abc'', ireq_Hash = ''hhh'', ireq_Size = 3, ireq_Force = False,
           ireq_Type = DEBUGINFO_TYPE_DEBUGINFO_UNSPECIFIED\<rparr>
        (Inr \<lparr>iresp_UploadInstructions = Some (demo_instructions UPLOAD_STRATEGY_SIGNED_URL)\<rparr>) #
     Call_http_Do ''PUT'' ''https://store/put'' [1, 2, 3] (Inr 200) #
     [Call_MarkUploadFinished
        \<lparr>mreq_BuildId = ''abc'', mreq_UploadId = ''upload-1'',
           mreq_Type = DEBUGINFO_TYPE_DEBUGINFO_UNSPECIFIED\<rparr> None] \<and>
   transmitted (Call_http_Do ''PUT'' ''https://store/put'' [1, 2, 3] (Inr 200)) = Some [1, 2, 3] \<and>
   hash_sum (unspecified_env UPLOAD_STRATEGY_SIGNED_URL) [1, 2, 3] = ''hhh'' \<and>
   map u_reader (projr (snd (collect_uploads (unspecified_env UPLOAD_STRATEGY_SIGNED_URL) demo_flags
      (emit (Call_grpc_Dial ''store:443'' None) init_state)))) = [Flexbuf 0] \<and>
   heap (fst (collect_uploads (unspecified_env UPLOAD_STRATEGY_SIGNED_URL) demo_flags
      (emit (Call_grpc_Dial ''store:443'' None) init_state))) 0 =
     \<lparr>s_bytes = [1, 2, 3], s_off = 0, s_closed = False\<rparr> \<and>
   s_bytes (heap (fst (run_upload (unspecified_env UPLOAD_STRATEGY_SIGNED_URL) demo_flags
      init_state)) 0) = []"
  using hash_is_of_the_bytes_sent[of "unspecified_env UPLOAD_STRATEGY_SIGNED_URL" demo_flags init_state
      "fst (run_upload (unspecified_env UPLOAD_STRATEGY_SIGNED_URL) demo_flags init_state)"
      "snd (run_upload (unspecified_env UPLOAD_STRATEGY_SIGNED_URL) demo_flags init_state)"]
  by (simp add: run_defs demo_defs unspecified_env_def Let_def)

subsection \<open>C2: an artifact the store declines\<close>

text \<open>
  C2. When \<^verbatim>\<open>ShouldInitiateUpload\<close> answers that the upload should not be initiated,
  the loop body makes that one call, prints the skip message with the reason of the
  store on the standard output, and returns no error: nothing is hashed (the stream is
  not touched), no \<^verbatim>\<open>InitiateUpload\<close> is sent, nothing is transmitted, and the loop
  goes on with the next artifact.
\<close>

theorem skipped_when_store_declines:
  assumes "ShouldInitiateUpload env (trace st)
             \<lparr>sreq_BuildId = u_buildID u, sreq_Force = Upload_Force fl,
                sreq_Type = debuginfoTypeStringToPb (Upload_Type fl)\<rparr> = Inr resp"
    and "\<not> sresp_ShouldInitiateUpload resp"
  shows "upload_artifact env fl st u =
           (emit (Print_Stdout
                   ''Skipping upload of %q with Build ID %q as the store instructed not to: %s\<newline>''
                   [ArgStr (u_path u), ArgStr (u_buildID u), ArgStr (sresp_Reason resp)])
              (emit (Call_ShouldInitiateUpload
                       \<lparr>sreq_BuildId = u_buildID u, sreq_Force = Upload_Force fl,
                          sreq_Type = debuginfoTypeStringToPb (Upload_Type fl)\<rparr> (Inr resp)) st),
            None) \<and>
         steps (new_events st (fst (upload_artifact env fl st u))) = [DedupChecked] \<and>
         heap (fst (upload_artifact env fl st u)) = heap st \<and>
         upload_loop env fl st (u # rest) =
           upload_loop env fl (fst (upload_artifact env fl st u)) rest"
  using assms by (simp add: upload_artifact_def Let_def)

text \<open>Two artifacts, both declined: two checks, two messages, no error.\<close>

theorem skipped_when_store_declines_witness:
  "ShouldInitiateUpload declining_env (trace demo_state)
     \<lparr>sreq_BuildId = u_buildID demo_upload, sreq_Force = Upload_Force demo_flags,
        sreq_Type = debuginfoTypeStringToPb (Upload_Type demo_flags)\<rparr> =
     Inr \<lparr>sresp_ShouldInitiateUpload = False, sresp_Reason = ''exists''\<rparr> \<and>
   trace (fst (upload_loop declining_env demo_flags demo_state [demo_upload, demo_upload])) =
     [Call_ShouldInitiateUpload
        \<lparr>sreq_BuildId = ''abc'', sreq_Force = False, sreq_Type = DEBUGINFO_TYPE_DEBUGINFO_UNSPECIFIED\<rparr>
        (Inr \<lparr>sresp_ShouldInitiateUpload = False, sresp_Reason = ''exists''\<rparr>),
      Print_Stdout ''Skipping upload of %q with Build ID %q as the store instructed not to: %s\<newline>''
        [ArgStr ''a.out'', ArgStr ''abc'', ArgStr ''exists''],
      Call_ShouldInitiateUpload
        \<lparr>sreq_BuildId = ''abc'', sreq_Force = False, sreq_Type = DEBUGINFO_TYPE_DEBUGINFO_UNSPECIFIED\<rparr>
        (Inr \<lparr>sresp_ShouldInitiateUpload = False, sresp_Reason = ''exists''\<rparr>),
      Print_Stdout ''Skipping upload of %q with Build ID %q as the store instructed not to: %s\<newline>''
        [ArgStr ''a.out'', ArgStr ''abc'', ArgStr ''exists'']] \<and>
   snd (upload_loop declining_env demo_flags demo_state [demo_upload, demo_upload]) = None"
  using skipped_when_store_declines[of declining_env demo_state demo_upload demo_flags
      "\<lparr>sresp_ShouldInitiateUpload = False, sresp_Reason = ''exists''\<rparr>" "[demo_upload]"]
  by (simp add: run_defs demo_defs declining_env_def Let_def)

subsection \<open>C3: the strategy the store chose\<close>

text \<open>
  C3. For every artifact the loop handles: a transmission (gRPC stream or PUT) is made
  only after an \<^verbatim>\<open>InitiateUpload\<close> answer whose strategy is grpc or signed-url; and
  when the answer carries the unspecified strategy or an unrecognized one, the loop body
  returns the error \<^verbatim>\<open>upload ...: no upload strategy specified\<close> (or
  \<^verbatim>\<open>unknown upload strategy\<close>), has transmitted nothing and has not called
  \<^verbatim>\<open>MarkUploadFinished\<close>, and the loop returns that error without handling the
  artifacts that remain.
\<close>

theorem no_transmission_without_a_strategy:
  assumes run: "upload_artifact env fl st u = (st', r)"
  shows "(\<forall>ev\<in>set (new_events st st'). transmitted ev \<noteq> None \<longrightarrow>
            (\<exists>req resp instr. Call_InitiateUpload req (Inr resp) \<in> set (new_events st st') \<and>
                iresp_UploadInstructions resp = Some instr \<and>
                (ui_UploadStrategy instr = UPLOAD_STRATEGY_GRPC \<or>
                 ui_UploadStrategy instr = UPLOAD_STRATEGY_SIGNED_URL))) \<and>
         (\<forall>req resp instr.
            Call_InitiateUpload req (Inr resp) \<in> set (new_events st st') \<and>
            iresp_UploadInstructions resp = Some instr \<and>
            ui_UploadStrategy instr \<noteq> UPLOAD_STRATEGY_GRPC \<and>
            ui_UploadStrategy instr \<noteq> UPLOAD_STRATEGY_SIGNED_URL \<longrightarrow>
              r = Some (Errorf ''upload %q with Build ID %q: %w''
                          [ArgStr (u_path u), ArgStr (u_buildID u)]
                          (Some (if ui_UploadStrategy instr = UPLOAD_STRATEGY_UNSPECIFIED
                                 then New ''no upload strategy specified''
                                 else Errorf ''unknown upload strategy: %v''
                                        [ArgStrategy (ui_UploadStrategy instr)] None))) \<and>
              (\<forall>ev\<in>set (new_events st st').
                 transmitted ev = None \<and> step_of ev \<noteq> Some Finished) \<and>
              (\<forall>rest. upload_loop env fl st (u # rest) = (st', r)))"
  using run
proof (cases rule: upload_artifact_cases)
  case (initiating resp)
  from initiating(3) show ?thesis
    by (cases rule: upload_initiate_cases)
      (use run in \<open>auto dest: prints_not_protocol\<close>)
qed auto

text \<open>
  A store that leaves the strategy unspecified: the artifact stops after the initiation
  with the error, and a second artifact is not begun.
\<close>

theorem no_transmission_without_a_strategy_witness:
  "Call_InitiateUpload
     \<lparr>ireq_BuildId = ''abc'', ireq_Hash = ''hhh'', ireq_Size = 3, ireq_Force = False,
        ireq_Type = DEBUGINFO_TYPE_DEBUGINFO_UNSPECIFIED\<rparr>
     (Inr \<lparr>iresp_UploadInstructions = Some (demo_instructions UPLOAD_STRATEGY_UNSPECIFIED)\<rparr>)
     \<in> set (new_events demo_state
            (fst (upload_artifact (unspecified_env UPLOAD_STRATEGY_UNSPECIFIED) demo_flags
                    demo_state demo_upload))) \<and>
   ui_UploadStrategy (demo_instructions UPLOAD_STRATEGY_UNSPECIFIED) = UPLOAD_STRATEGY_UNSPECIFIED \<and>
   upload_loop (unspecified_env UPLOAD_STRATEGY_UNSPECIFIED) demo_flags demo_state
       [demo_upload, demo_upload] =
     upload_artifact (unspecified_env UPLOAD_STRATEGY_UNSPECIFIED) demo_flags demo_state demo_upload \<and>
   snd (upload_artifact (unspecified_env UPLOAD_STRATEGY_UNSPECIFIED) demo_flags demo_state demo_upload) =
     Some (Errorf ''upload %q with Build ID %q: %w'' [ArgStr ''a.out'', ArgStr ''abc'']
             (Some (New ''no upload strategy specified''))) \<and>
   steps (new_events demo_state
            (fst (upload_artifact (unspecified_env UPLOAD_STRATEGY_UNSPECIFIED) demo_flags
                    demo_state demo_upload))) =
     [DedupChecked, Hashed, Rewound, Initiated] \<and>
   snd (upload_artifact (unspecified_env (UPLOAD_STRATEGY_unrecognized 7)) demo_flags demo_state
          demo_upload) =
     Some (Errorf ''upload %q with Build ID %q: %w'' [ArgStr ''a.out'', ArgStr ''abc'']
             (Some (Errorf ''unknown upload strategy: %v''
                      [ArgStrategy (UPLOAD_STRATEGY_unrecognized 7)] None)))"
  using no_transmission_without_a_strategy[of "unspecified_env UPLOAD_STRATEGY_UNSPECIFIED"
      demo_flags demo_state demo_upload
      "fst (upload_artifact (unspecified_env UPLOAD_STRATEGY_UNSPECIFIED) demo_flags demo_state demo_upload)"
      "snd (upload_artifact (unspecified_env UPLOAD_STRATEGY_UNSPECIFIED) demo_flags demo_state demo_upload)"]
  by (simp add: run_defs demo_defs unspecified_env_def Let_def)

subsection \<open>C4: the zero-size guard\<close>

lemma resolve_buildID_no_Stat:
  "resolve_buildID env fl st path = (st1, b) \<Longrightarrow>
     \<exists>evs. trace st1 = trace st @ evs \<and> (\<forall>p x. Call_Stat p x \<notin> set evs)"
  by (auto simp: resolve_buildID_def Let_def split: if_splits option.splits sum.splits)

lemma collect_files_Stat_zero:
  "collect_files env fl st paths uploads = (st', res) \<Longrightarrow>
     \<exists>evs. trace st' = trace st @ evs \<and>
       (\<forall>p. Call_Stat p (Inr 0) \<in> set evs \<longrightarrow>
          res = Inl (Errorf ''file %q is empty, but must not be empty'' [ArgStr p] None))"
proof (induction paths arbitrary: st uploads)
  case Nil
  then show ?case by simp
next
  case (Cons path paths)
  obtain st1 b where b: "resolve_buildID env fl st path = (st1, b)"
    by (cases "resolve_buildID env fl st path")
  from resolve_buildID_no_Stat[OF b] obtain evs1 where
    evs1: "trace st1 = trace st @ evs1" "\<forall>p x. Call_Stat p x \<notin> set evs1" by blast
  show ?case
  proof (cases b)
    case (Inl err)
    with Cons.prems b evs1 show ?thesis by auto
  next
    case (Inr buildID)
    show ?thesis
    proof (cases "os_Open env (trace st1) path")
      case Inl': (Inl err)
      with Cons.prems b Inr evs1 show ?thesis by auto
    next
      case Inr': (Inr content)
      obtain f st2 where a: "alloc content (emit (Call_os_Open path None) st1) = (f, st2)"
        by (cases "alloc content (emit (Call_os_Open path None) st1)")
      have tr2: "trace st2 = trace st @ evs1 @ [Call_os_Open path None]"
        using a evs1 by (auto simp: alloc_def)
      define fi where "fi = file_Stat env (trace st2) path"
      define st3 where "st3 = emit (Call_Stat path fi) st2"
      have tr3: "trace st3 = trace st @ evs1 @ [Call_os_Open path None, Call_Stat path fi]"
        using tr2 by (simp add: st3_def)
      show ?thesis
      proof (cases fi)
        case Inl'': (Inl err)
        with Cons.prems b Inr Inr' a tr3 evs1 show ?thesis
          by (auto simp: fi_def st3_def Let_def)
      next
        case Inr'': (Inr Size)
        show ?thesis
        proof (cases "Size = 0")
          case True
          with Cons.prems b Inr Inr' a tr3 evs1 Inr'' show ?thesis
            by (auto simp: fi_def st3_def Let_def)
        next
          case False
          with Cons.prems b Inr Inr' a Inr''
          have "collect_files env fl st3 paths
                  (uploads @ [\<lparr>u_buildID = buildID, u_path = path, u_reader = OsFile f, u_size = Size\<rparr>])
                = (st', res)"
            by (auto simp: fi_def st3_def Let_def)
          from Cons.IH[OF this] obtain evs where
            evs: "trace st' = trace st3 @ evs"
              "\<forall>p. Call_Stat p (Inr 0) \<in> set evs \<longrightarrow>
                 res = Inl (Errorf ''file %q is empty, but must not be empty'' [ArgStr p] None)"
            by blast
          with tr3 evs1 Inr'' False show ?thesis by auto
        qed
      qed
    qed
  qed
qed

lemma sizes_after_extraction_empty:
  "sizes_after_extraction st (pre @ u # post) = (st', res) \<Longrightarrow>
   \<forall>v\<in>set pre. \<exists>b. u_reader v = Flexbuf b \<and> s_bytes (heap st b) \<noteq> [] \<Longrightarrow>
   u_reader u = Flexbuf b \<Longrightarrow> s_bytes (heap st b) = [] \<Longrightarrow>
   trace st' = trace st \<and>
   res = Inl (Errorf ''extracted debug information from %q is empty, but must not be empty''
                [ArgStr (u_path u)] None)"
proof (induction pre arbitrary: st st' res)
  case Nil
  then show ?case by (auto simp: Let_def)
next
  case (Cons v pre)
  from Cons.prems(2) obtain c where c: "u_reader v = Flexbuf c" "s_bytes (heap st c) \<noteq> []"
    by auto
  obtain st2 r2 where r2: "sizes_after_extraction (rewind c st) (pre @ u # post) = (st2, r2)"
    by (cases "sizes_after_extraction (rewind c st) (pre @ u # post)")
  have "trace st2 = trace (rewind c st) \<and>
        r2 = Inl (Errorf ''extracted debug information from %q is empty, but must not be empty''
                [ArgStr (u_path u)] None)"
    using Cons.prems(2,3,4) by (intro Cons.IH[OF r2]) auto
  with Cons.prems(1) c r2 show ?case by (auto simp: Let_def)
qed

lemma collect_extract_readers:
  "collect_extract env st paths srcDst uploads = (st', Inr (srcDst', uploads')) \<Longrightarrow>
   \<forall>v\<in>set uploads. \<exists>b. u_reader v = Flexbuf b \<Longrightarrow>
   (uploads \<noteq> [] \<longrightarrow> srcDst \<noteq> []) \<Longrightarrow>
   (\<forall>v\<in>set uploads'. \<exists>b. u_reader v = Flexbuf b) \<and> (uploads' \<noteq> [] \<longrightarrow> srcDst' \<noteq> [])"
proof (induction paths arbitrary: st srcDst uploads)
  case Nil
  then show ?case by simp
next
  case (Cons path paths)
  have upd: "AList.update k v m \<noteq> []" for k :: string and v :: nat and m
    by (cases m) auto
  from Cons.prems(1) obtain buildID buf st3 where
    rec: "collect_extract env st3 paths (AList.update path buf srcDst)
            (uploads @ [\<lparr>u_buildID = buildID, u_path = path, u_reader = Flexbuf buf, u_size = 0\<rparr>])
          = (st', Inr (srcDst', uploads'))"
    by (auto simp: Let_def split: option.splits sum.splits prod.splits)
  show ?case
    using Cons.prems(2) by (intro Cons.IH[OF rec]) (auto simp: upd)
qed

lemma no_Stat_added:
  "adds (list_all (\<lambda>ev. \<forall>p x. ev \<noteq> Call_Stat p x)) st st' \<Longrightarrow>
     Call_Stat p y \<in> set (new_events st st') \<Longrightarrow> False"
  unfolding adds_def list_all_iff by (elim exE conjE) (simp, blast)

text \<open>
  C4. In a run of the upload command: when \<^verbatim>\<open>Stat\<close> reports size 0 for a file, the
  run returns the error \<^verbatim>\<open>file ... is empty\<close> naming that path; when, after the
  extraction, the scratch buffer of an artifact is empty (and those of the artifacts
  before it in the list are not), the run returns the error
  \<^verbatim>\<open>extracted debug information from ... is empty\<close> naming that artifact's path; in
  both cases no call of the protocol (dedup check, hash, initiation, transmission,
  completion mark) has been made. In every run, either it stops with an error before any
  call of the protocol, or the artifacts the protocol loop is given all have a size other
  than 0.
\<close>

theorem zero_size_guard:
  assumes run: "run_upload env fl st = (st', r)"
  shows "(\<forall>p. Call_Stat p (Inr 0) \<in> set (new_events st st') \<longrightarrow>
            r = Some (Errorf ''file %q is empty, but must not be empty'' [ArgStr p] None) \<and>
            quiet st st') \<and>
         (\<forall>st1 st2 st3 srcDst pre u post.
            grpcConn env st fl = (st1, None) \<and>
            \<not> Upload_NoExtract fl \<and> Upload_Type fl = ''debuginfo'' \<and>
            collect_extract env st1 (Upload_Paths fl) [] [] = (st2, Inr (srcDst, pre @ u # post)) \<and>
            extractAll env (Extract_Mode fl) st2 srcDst = (st3, None) \<and>
            (\<forall>v\<in>set pre. s_bytes (heap st3 (addr_of (u_reader v))) \<noteq> []) \<and>
            s_bytes (heap st3 (addr_of (u_reader u))) = [] \<longrightarrow>
              r = Some (Errorf ''extracted debug information from %q is empty, but must not be empty''
                          [ArgStr (u_path u)] None) \<and>
              quiet st st') \<and>
         (quiet st st' \<and> r \<noteq> None \<or>
          (\<exists>st2 uploads. quiet st st2 \<and> upload_loop env fl st2 uploads = (st', r) \<and>
               (\<forall>u\<in>set uploads. u_size u \<noteq> 0)))"
proof (intro conjI allI impI)
  show "quiet st st' \<and> r \<noteq> None \<or>
          (\<exists>st2 uploads. quiet st st2 \<and> upload_loop env fl st2 uploads = (st', r) \<and>
               (\<forall>u\<in>set uploads. u_size u \<noteq> 0))"
    using run by (cases rule: run_upload_phases) auto
next
  fix st1 st2 st3 srcDst pre u post
  assume h: "grpcConn env st fl = (st1, None) \<and>
            \<not> Upload_NoExtract fl \<and> Upload_Type fl = ''debuginfo'' \<and>
            collect_extract env st1 (Upload_Paths fl) [] [] = (st2, Inr (srcDst, pre @ u # post)) \<and>
            extractAll env (Extract_Mode fl) st2 srcDst = (st3, None) \<and>
            (\<forall>v\<in>set pre. s_bytes (heap st3 (addr_of (u_reader v))) \<noteq> []) \<and>
            s_bytes (heap st3 (addr_of (u_reader u))) = []"
  from h collect_extract_readers[of env st1 "Upload_Paths fl" "[]" "[]" st2 srcDst "pre @ u # post"]
  have fb: "\<forall>v\<in>set (pre @ u # post). \<exists>b. u_reader v = Flexbuf b" and ne: "srcDst \<noteq> []"
    by auto
  from fb obtain b where b: "u_reader u = Flexbuf b" by auto
  obtain st4 res where sz: "sizes_after_extraction st3 (pre @ u # post) = (st4, res)"
    by (cases "sizes_after_extraction st3 (pre @ u # post)")
  have pre_ok: "\<forall>v\<in>set pre. \<exists>c. u_reader v = Flexbuf c \<and> s_bytes (heap st3 c) \<noteq> []"
  proof
    fix v
    assume v: "v \<in> set pre"
    with fb obtain c where c: "u_reader v = Flexbuf c" by auto
    from h v have "s_bytes (heap st3 (addr_of (u_reader v))) \<noteq> []" by blast
    with c show "\<exists>c. u_reader v = Flexbuf c \<and> s_bytes (heap st3 c) \<noteq> []" by simp
  qed
  have empty: "s_bytes (heap st3 b) = []" using h b by simp
  have "trace st4 = trace st3 \<and>
        res = Inl (Errorf ''extracted debug information from %q is empty, but must not be empty''
                [ArgStr (u_path u)] None)"
    using sz pre_ok b empty by (rule sizes_after_extraction_empty)
  with run h ne sz
  have r: "r = Some (Errorf ''extracted debug information from %q is empty, but must not be empty''
                          [ArgStr (u_path u)] None)" and st': "st' = st4" and tr: "trace st4 = trace st3"
    by (auto simp: run_upload_def collect_uploads_def)
  have "quiet st st1" using h grpcConn_quiet[of st st env fl st1 None] by simp
  then have "quiet st st2" using h collect_extract_quiet by blast
  then have "quiet st st3" using h extractAll_quiet by blast
  then have "quiet st st'" using st' tr by (simp add: adds_def)
  with r show "r = Some (Errorf ''extracted debug information from %q is empty, but must not be empty''
                          [ArgStr (u_path u)] None)" "quiet st st'"
    by simp_all
next
  fix p
  assume p: "Call_Stat p (Inr 0) \<in> set (new_events st st')"
  let ?K = "\<lambda>ev. \<forall>p x. ev \<noteq> Call_Stat p x"
  have loopK: "adds (list_all ?K) s s'" if "upload_loop env fl s ups = (s', rr)" for s s' ups rr
    using upload_loop_events[OF that] by (rule adds_mono) auto
  obtain st1 c where c: "grpcConn env st fl = (st1, c)" by (cases "grpcConn env st fl")
  have k1: "adds (list_all ?K) st st1" using c by (intro grpcConn_adds[OF _ _ _ c]) auto
  have goal: "r = Some (Errorf ''file %q is empty, but must not be empty'' [ArgStr p] None) \<and>
     quiet st st'"
  proof (cases c)
    case (Some err)
    with run c have "st' = st1" by (simp add: run_upload_def collect_uploads_def)
    with k1 p no_Stat_added show ?thesis by blast
  next
    case None
    show ?thesis
    proof (cases "\<not> Upload_NoExtract fl \<and> Upload_Type fl = ''debuginfo''")
      case True
      obtain st2 ce where ce: "collect_extract env st1 (Upload_Paths fl) [] [] = (st2, ce)"
        by (cases "collect_extract env st1 (Upload_Paths fl) [] []")
      have k2: "adds (list_all ?K) st st2" using k1 ce by (rule collect_extract_adds[rotated 2]) auto
      have "adds (list_all ?K) st st'"
      proof (cases ce)
        case (Inl err)
        with run c None True ce k2 show ?thesis by (auto simp: run_upload_def collect_uploads_def)
      next
        case (Inr sdu)
        obtain srcDst uploads where sdu: "sdu = (srcDst, uploads)" by (cases sdu)
        show ?thesis
        proof (cases "length srcDst = 0")
          case True': True
          with run c None True ce Inr sdu k2 show ?thesis by (auto simp: run_upload_def collect_uploads_def)
        next
          case False
          obtain st3 x where x: "extractAll env (Extract_Mode fl) st2 srcDst = (st3, x)"
            by (cases "extractAll env (Extract_Mode fl) st2 srcDst")
          have k3: "adds (list_all ?K) st st3"
            using k2 x unfolding extractAll_def by (rule extractAll_loop_adds[rotated 3]) auto
          obtain st4 sz where sz: "sizes_after_extraction st3 uploads = (st4, sz)"
            by (cases "sizes_after_extraction st3 uploads")
          have k4: "adds (list_all ?K) st st4"
            using k3 sizes_after_extraction_trace[OF sz] by (simp add: adds_def)
          show ?thesis
          proof (cases x)
            case (Some err)
            with run c None True ce Inr sdu False x k3 show ?thesis by (auto simp: run_upload_def collect_uploads_def)
          next
            case None': None
            show ?thesis
            proof (cases sz)
              case (Inl err)
              with run c None True ce \<open>ce = Inr sdu\<close> sdu False x None' sz k4 show ?thesis
                by (auto simp: run_upload_def collect_uploads_def)
            next
              case Inr': (Inr uploads1)
              with run c None True ce Inr sdu False x None' sz
              have "upload_loop env fl st4 uploads1 = (st', r)" by (auto simp: run_upload_def collect_uploads_def)
              from adds_trans[OF k4 loopK[OF this]] show ?thesis .
            qed
          qed
        qed
      qed
      with p no_Stat_added show ?thesis by blast
    next
      case False
      obtain st2 cf where cf: "collect_files env fl st1 (Upload_Paths fl) [] = (st2, cf)"
        by (cases "collect_files env fl st1 (Upload_Paths fl) []")
      from collect_files_Stat_zero[OF cf] obtain evs where
        evs: "trace st2 = trace st1 @ evs"
          "\<forall>p. Call_Stat p (Inr 0) \<in> set evs \<longrightarrow>
             cf = Inl (Errorf ''file %q is empty, but must not be empty'' [ArgStr p] None)"
        by blast
      from k1 obtain evs1 where evs1: "trace st1 = trace st @ evs1" "list_all ?K evs1"
        by (auto simp: adds_def)
      show ?thesis
      proof (cases cf)
        case (Inl err)
        with run c None False cf have "st' = st2" "r = Some err" by (auto simp: run_upload_def collect_uploads_def)
        moreover have "quiet st st2"
          using grpcConn_quiet[OF _ c] collect_files_quiet[OF _ cf] by simp
        ultimately show ?thesis using p evs evs1 Inl by (auto simp: list_all_iff)
      next
        case (Inr uploads)
        with run c None False cf have "upload_loop env fl st2 uploads = (st', r)"
          by (auto simp: run_upload_def collect_uploads_def)
        from loopK[OF this] obtain evs2 where
          evs2: "trace st' = trace st2 @ evs2" "list_all ?K evs2" by (auto simp: adds_def)
        with p evs evs1 Inr show ?thesis by (auto simp: list_all_iff)
      qed
    qed
  qed
  then show "r = Some (Errorf ''file %q is empty, but must not be empty'' [ArgStr p] None)"
    "quiet st st'" by simp_all
qed

text \<open>
  Three files of which the second is empty, without extraction; and one file whose
  extraction writes nothing.
\<close>

theorem zero_size_guard_witness:
  "Call_Stat ''empty'' (Inr 0) \<in>
     set (new_events init_state (fst (run_upload empty_file_env empty_file_flags init_state))) \<and>
   snd (run_upload empty_file_env empty_file_flags init_state) =
     Some (Errorf ''file %q is empty, but must not be empty'' [ArgStr ''empty''] None) \<and>
   list_all (\<lambda>ev. \<not> is_protocol_event ev)
     (trace (fst (run_upload empty_file_env empty_file_flags init_state))) \<and>
   snd (grpcConn empty_output_env init_state demo_flags) = None \<and>
   snd (collect_extract empty_output_env (fst (grpcConn empty_output_env init_state demo_flags))
          (Upload_Paths demo_flags) [] []) =
     Inr ([(''a.out'', 0)],
          [] @ \<lparr>u_buildID = ''abc'', u_path = ''a.out'', u_reader = Flexbuf 0, u_size = 0\<rparr> # []) \<and>
   s_bytes (heap (fst (extractAll empty_output_env (Extract_Mode demo_flags)
       (fst (collect_extract empty_output_env (fst (grpcConn empty_output_env init_state demo_flags))
          (Upload_Paths demo_flags) [] [])) [(''a.out'', 0)])) 0) = [] \<and>
   snd (run_upload empty_output_env demo_flags init_state) =
     Some (Errorf ''extracted debug information from %q is empty, but must not be empty''
             [ArgStr ''a.out''] None)"
  using zero_size_guard[of empty_file_env empty_file_flags init_state
      "fst (run_upload empty_file_env empty_file_flags init_state)"
      "snd (run_upload empty_file_env empty_file_flags init_state)"]
    zero_size_guard[of empty_output_env demo_flags init_state
      "fst (run_upload empty_output_env demo_flags init_state)"
      "snd (run_upload empty_output_env demo_flags init_state)"]
  by (simp add: run_defs demo_defs empty_file_env_def empty_file_flags_def empty_output_env_def Let_def)

subsection \<open>C5: extraction failures are isolated\<close>

lemma outcomes_simps [simp]:
  "outcomes [] = []"
  "outcomes (xs @ ys) = outcomes xs @ outcomes ys"
  "outcomes (ev # evs) = (case extract_outcome ev of None \<Rightarrow> outcomes evs | Some x \<Rightarrow> x # outcomes evs)"
  by (simp_all add: outcomes_def List.map_filter_def split: option.splits)

lemma failures_simps [simp]:
  "failures [] = []"
  "failures (xs @ ys) = failures xs @ failures ys"
  by (simp_all add: failures_def List.map_filter_def)

lemma join_all_simps [simp]:
  "join_all result [] = result"
  "join_all result (e # es) = join_all (errors_Join [result, Some e]) es"
  by (simp_all add: join_all_def)

lemma errors_Join_Some [simp]: "errors_Join [result, Some e] \<noteq> None"
  by (cases result) (simp_all add: errors_Join_def List.map_filter_def)


















subsection \<open>C6: the signed-URL transport\<close>

text \<open>
  C6, as amended. When the request can be built and the exchange returns a response,
  \<^verbatim>\<open>uploadViaSignedURL\<close> has sent exactly one PUT to the URL, with the bytes of the
  reader from its offset to its end as the body, and it succeeds if and only if the
  status of the response is 200; every other status, the other 2xx ones included, is the
  error \<^verbatim>\<open>unexpected status code\<close> carrying the status.
\<close>

theorem signed_url_put_succeeds_on_200_only:
  assumes "http_NewRequest env MethodPut url = None"
    and "http_Do env (trace st) MethodPut url (remaining st (addr_of r)) = Inr code"
  shows "new_events st (fst (uploadViaSignedURL env st url r)) =
           [Call_http_Do MethodPut url (remaining st (addr_of r)) (Inr code)] \<and>
         snd (uploadViaSignedURL env st url r) =
           (if code = 200 then None
            else Some (Errorf ''unexpected status code: %d'' [ArgInt code] None))"
  using assms by (simp add: uploadViaSignedURL_def Let_def StatusOK_def)

text \<open>Status 200 succeeds, status 403 is an error that carries 403.\<close>

theorem signed_url_put_succeeds_on_200_only_witness:
  "http_NewRequest (status_env 200) MethodPut ''https://store/put'' = None \<and>
   http_Do (status_env 200) (trace demo_state) MethodPut ''https://store/put''
     (remaining demo_state 0) = Inr 200 \<and>
   http_Do (status_env 403) (trace demo_state) MethodPut ''https://store/put''
     (remaining demo_state 0) = Inr 403 \<and>
   snd (uploadViaSignedURL (status_env 200) demo_state ''https://store/put'' (OsFile 0)) = None \<and>
   snd (uploadViaSignedURL (status_env 403) demo_state ''https://store/put'' (OsFile 0)) =
     Some (Errorf ''unexpected status code: %d'' [ArgInt 403] None) \<and>
   new_events demo_state (fst (uploadViaSignedURL (status_env 200) demo_state ''https://store/put'' (OsFile 0))) =
     [Call_http_Do ''PUT'' ''https://store/put'' [1, 2, 3] (Inr 200)]"
  using signed_url_put_succeeds_on_200_only[of "status_env 200" "''https://store/put''" demo_state "OsFile 0" 200]
    signed_url_put_succeeds_on_200_only[of "status_env 403" "''https://store/put''" demo_state "OsFile 0" 403]
  by (simp add: status_env_def demo_defs remaining_def MethodPut_def)

text \<open>
  C6 as stated lets every 2xx status succeed. Status 204 (No Content) is one, and the
  transport returns an error for it.
\<close>

theorem signed_url_put_204_counterexample:
  "(200 :: int) \<le> 204 \<and> (204 :: int) < 300 \<and>
   snd (uploadViaSignedURL (status_env 204) demo_state ''https://store/put'' (OsFile 0)) =
     Some (Errorf ''unexpected status code: %d'' [ArgInt 204] None)"
  by (simp add: uploadViaSignedURL_def status_env_def demo_defs Let_def StatusOK_def)

subsection \<open>C7: the order of the protocol steps for one artifact\<close>

text \<open>
  C7, as amended. For every artifact the upload loop handles, the protocol steps it takes
  are, in this order and each at most once: the dedup check, the hash, the rewind, the
  initiation, the transmission, the completion mark; the sequence may stop after any of
  them. The dedup check comes first: nothing is hashed before the store has been asked.
  An artifact that ends without an error has taken either the dedup check alone (the
  store declined, or a dry run was asked for) or all six steps.
\<close>

theorem upload_steps_in_order:
  assumes "upload_artifact env fl st u = (st', r)"
  shows "trace st' = trace st @ new_events st st' \<and>
         steps (new_events st st') \<in>
           {[DedupChecked],
            [DedupChecked, Hashed],
            [DedupChecked, Hashed, Rewound],
            [DedupChecked, Hashed, Rewound, Initiated],
            [DedupChecked, Hashed, Rewound, Initiated, Transmitted],
            [DedupChecked, Hashed, Rewound, Initiated, Transmitted, Finished]} \<and>
         (r = None \<longrightarrow> steps (new_events st st') \<in>
           {[DedupChecked], 
            [DedupChecked, Hashed, Rewound, Initiated, Transmitted, Finished]})"
  using assms
proof (cases rule: upload_artifact_cases)
  case (initiating resp)
  from initiating(3) show ?thesis
    by (cases rule: upload_initiate_cases) auto
qed auto

text \<open>
  An upload that goes through: its six steps, the dedup check before the hash.
\<close>

theorem upload_steps_in_order_witness:
  "steps (new_events demo_state (fst (upload_artifact demo_env demo_flags demo_state demo_upload))) =
     [DedupChecked, Hashed, Rewound, Initiated, Transmitted, Finished] \<and>
   snd (upload_artifact demo_env demo_flags demo_state demo_upload) = None"
  using upload_steps_in_order[of demo_env demo_flags demo_state demo_upload
      "fst (upload_artifact demo_env demo_flags demo_state demo_upload)"
      "snd (upload_artifact demo_env demo_flags demo_state demo_upload)"]
  by (simp add: run_defs demo_defs Let_def)

text \<open>
  C7 as stated says that the artifact is hashed before the dedup check is made. In the
  run of one artifact against a store that accepts it, the first call is
  \<^verbatim>\<open>ShouldInitiateUpload\<close> and the hash is computed second.
\<close>

theorem hashed_before_dedup_check_counterexample:
  "steps (trace (fst (upload_artifact demo_env demo_flags demo_state demo_upload))) =
     [DedupChecked, Hashed, Rewound, Initiated, Transmitted, Finished] \<and>
   take 2 (trace (fst (upload_artifact demo_env demo_flags demo_state demo_upload))) =
     [Call_ShouldInitiateUpload
        \<lparr>sreq_BuildId = ''abc'', sreq_Force = False, sreq_Type = DEBUGINFO_TYPE_DEBUGINFO_UNSPECIFIED\<rparr>
        (Inr \<lparr>sresp_ShouldInitiateUpload = True, sresp_Reason = ''new''\<rparr>),
      Call_hash_Reader [1, 2, 3] (Inr ''hhh'')]"
  by (simp add: run_defs demo_defs Let_def)

subsection \<open>C8: the seen set of the source command\<close>

lemma occurrences_simps [simp]:
  "occurrences f Name [] = 0"
  "occurrences f Name (xs @ ys) = occurrences f Name xs + occurrences f Name ys"
  "occurrences f Name (ev # evs) = (if f ev = Some Name then 1 else 0) + occurrences f Name evs"
  by (simp_all add: occurrences_def)

lemma warned_simps [simp]:
  "warned (Print_Stderr ''skipping file %q: does not exist\<newline>'' [ArgStr Name] None) = Some Name"
  "warned (Call_os_Open p x) = None"
  "warned (Call_Stat p y) = None"
  "warned (Call_tar_WriteHeader p z x) = None"
  "warned (Call_io_Copy p bs x) = None"
  "warned (Call_Close p x) = None"
  by (simp_all add: warned_def)





lemma referenced_files_simps [simp]:
  "referenced_files [] = []"
  "referenced_files (Inl err # d) = referenced_files d"
  "e_Tag e \<noteq> TagCompileUnit \<Longrightarrow> referenced_files (Inr e # d) = referenced_files d"
  "e_Tag e = TagCompileUnit \<Longrightarrow> e_LineReader e = Inl err \<Longrightarrow>
     referenced_files (Inr e # d) = referenced_files d"
  "e_Tag e = TagCompileUnit \<Longrightarrow> e_LineReader e = Inr None \<Longrightarrow>
     referenced_files (Inr e # d) = referenced_files d"
  "e_Tag e = TagCompileUnit \<Longrightarrow> e_LineReader e = Inr (Some Files) \<Longrightarrow>
     referenced_files (Inr e # d) = List.map_filter (\<lambda>f. f) Files @ referenced_files d"
  by (simp_all add: referenced_files_def)




subsection \<open>C9: extractAll on an empty map\<close>

text \<open>
  C9. \<^verbatim>\<open>extractAll\<close> on an empty map returns nil and does nothing. The error
  \<^verbatim>\<open>failed to find actionable files\<close> comes from its two callers, which test the
  map before they call it: the upload command (once the connection is made) and the
  extract command (once the output directory is made anew).
\<close>

theorem extractAll_empty_is_silent:
  "extractAll env mode st [] = (st, None) \<and>
   (\<forall>fl st1. grpcConn env st fl = (st1, None) \<and> \<not> Upload_NoExtract fl \<and>
        Upload_Type fl = ''debuginfo'' \<and> Upload_Paths fl = [] \<longrightarrow>
        run_upload env fl st = (st1, Some (New ''failed to find actionable files''))) \<and>
   (\<forall>fl. os_RemoveAll env (trace st) (Extract_OutputDir fl) = None \<and>
        os_MkdirAll env (trace st @ [Call_os_RemoveAll (Extract_OutputDir fl) None])
          (Extract_OutputDir fl) = None \<and>
        Extract_Paths fl = [] \<longrightarrow>
        run_extract env fl st =
          (emit (Call_os_MkdirAll (Extract_OutputDir fl) None)
             (emit (Call_os_RemoveAll (Extract_OutputDir fl) None) st),
           Some (New ''failed to find actionable files'')))"
  by (simp add: extractAll_def run_upload_def collect_uploads_def run_extract_def Let_def)

text \<open>Both commands without a path, and \<^verbatim>\<open>extractAll\<close> itself on the empty map.\<close>

theorem extractAll_empty_is_silent_witness:
  "grpcConn demo_env init_state (demo_flags\<lparr>Upload_Paths := []\<rparr>) =
     (emit (Call_grpc_Dial ''store:443'' None) init_state, None) \<and>
   os_RemoveAll demo_env (trace init_state) ''out'' = None \<and>
   os_MkdirAll demo_env (trace init_state @ [Call_os_RemoveAll ''out'' None]) ''out'' = None \<and>
   run demo_env ''extract <path>'' (demo_flags\<lparr>Extract_Paths := []\<rparr>) =
     (\<lparr>trace = [Call_os_RemoveAll ''out'' None, Call_os_MkdirAll ''out'' None],
       heap = (\<lambda>a. \<lparr>s_bytes = [], s_off = 0, s_closed = False\<rparr>), next_addr = 0\<rparr>,
      Some (New ''failed to find actionable files'')) \<and>
   snd (run demo_env ''upload <path>'' (demo_flags\<lparr>Upload_Paths := []\<rparr>)) =
     Some (New ''failed to find actionable files'') \<and>
   extractAll demo_env ''keep-only-debug'' init_state [] = (init_state, None)"
  using extractAll_empty_is_silent[of demo_env "''keep-only-debug''" init_state]
  by (simp add: run_defs demo_defs Let_def)

subsection \<open>C10: the artifact kind on the wire\<close>

lemma upload_artifact_typed:
  assumes "upload_artifact env fl st u = (st', r)"
  shows "adds (list_all (request_typed (debuginfoTypeStringToPb (Upload_Type fl)))) st st'"
  using assms
proof (cases rule: upload_artifact_cases)
  case (initiating resp)
  from initiating(3) show ?thesis
    by (cases rule: upload_initiate_cases)
      (auto simp: adds_def request_typed_def list_all_iff)
qed (auto simp: adds_def request_typed_def)

lemma upload_loop_typed:
  "upload_loop env fl st uploads = (st', r) \<Longrightarrow>
     adds (list_all (request_typed (debuginfoTypeStringToPb (Upload_Type fl)))) st st'"
proof (induction uploads arbitrary: st)
  case Nil
  then show ?case by simp
next
  case (Cons u uploads)
  obtain st1 r1 where a: "upload_artifact env fl st u = (st1, r1)"
    by (cases "upload_artifact env fl st u")
  note t = upload_artifact_typed[OF a]
  show ?case
  proof (cases r1)
    case None
    with Cons.prems a have "upload_loop env fl st1 uploads = (st', r)" by simp
    from adds_trans[OF t Cons.IH[OF this]] show ?thesis .
  next
    case (Some err)
    with Cons.prems a t show ?thesis by simp
  qed
qed

lemma run_upload_typed:
  assumes "run_upload env fl st = (st', r)"
  shows "adds (list_all (request_typed (debuginfoTypeStringToPb (Upload_Type fl)))) st st'"
  using assms
proof (cases rule: run_upload_phases)
  case stopped
  then show ?thesis
    by (auto elim!: adds_mono simp: request_typed_def not_protocol_request_Type)
next
  case (uploading st2 uploads)
  have "adds (list_all (request_typed (debuginfoTypeStringToPb (Upload_Type fl)))) st st2"
    using uploading(1) by (auto elim!: adds_mono simp: request_typed_def not_protocol_request_Type)
  from adds_trans[OF this upload_loop_typed[OF uploading(2)]] show ?thesis .
qed

text \<open>
  C10. \<^verbatim>\<open>debuginfoTypeStringToPb\<close> maps \<^verbatim>\<open>executable\<close> and \<^verbatim>\<open>sources\<close> to their
  constants and every other string, the default kind \<^verbatim>\<open>debuginfo\<close> among them, to
  \<^verbatim>\<open>DEBUGINFO_TYPE_DEBUGINFO_UNSPECIFIED\<close>; so in a run of the upload command with the
  default kind every dedup-check, initiate and finish request carries the unspecified
  value.
\<close>

theorem default_kind_is_sent_unspecified:
  "debuginfoTypeStringToPb ''executable'' = DEBUGINFO_TYPE_EXECUTABLE \<and>
   debuginfoTypeStringToPb ''sources'' = DEBUGINFO_TYPE_SOURCES \<and>
   debuginfoTypeStringToPb ''debuginfo'' = DEBUGINFO_TYPE_DEBUGINFO_UNSPECIFIED \<and>
   (\<forall>s. s \<noteq> ''executable'' \<and> s \<noteq> ''sources'' \<longrightarrow>
        debuginfoTypeStringToPb s = DEBUGINFO_TYPE_DEBUGINFO_UNSPECIFIED) \<and>
   (\<forall>env fl st' r.
      Upload_Type fl = ''debuginfo'' \<and> run env ''upload <path>'' fl = (st', r) \<longrightarrow>
        (\<forall>req resp. Call_ShouldInitiateUpload req resp \<in> set (trace st') \<longrightarrow>
             sreq_Type req = DEBUGINFO_TYPE_DEBUGINFO_UNSPECIFIED) \<and>
        (\<forall>req resp. Call_InitiateUpload req resp \<in> set (trace st') \<longrightarrow>
             ireq_Type req = DEBUGINFO_TYPE_DEBUGINFO_UNSPECIFIED) \<and>
        (\<forall>req resp. Call_MarkUploadFinished req resp \<in> set (trace st') \<longrightarrow>
             mreq_Type req = DEBUGINFO_TYPE_DEBUGINFO_UNSPECIFIED))"
proof -
  have run: "request_typed DEBUGINFO_TYPE_DEBUGINFO_UNSPECIFIED ev"
    if "Upload_Type fl = ''debuginfo''" "run env ''upload <path>'' fl = (st', r)"
      "ev \<in> set (trace st')" for env fl st' r ev
  proof -
    from that(2) have "run_upload env fl init_state = (st', r)" by (simp add: run_def)
    from run_upload_typed[OF this] that(1,3) show ?thesis
      by (auto simp: adds_def init_state_def list_all_iff debuginfoTypeStringToPb_def)
  qed
  show ?thesis
    apply (intro conjI allI impI)
          apply (simp_all add: debuginfoTypeStringToPb_def)
    using run by (fastforce simp: request_typed_def)+
qed

text \<open>The run of the concrete environment with the default kind, and a string that is no kind.\<close>

theorem default_kind_is_sent_unspecified_witness:
  "Upload_Type demo_flags = ''debuginfo'' \<and>
   Call_ShouldInitiateUpload
     \<lparr>sreq_BuildId = ''abc'', sreq_Force = False, sreq_Type = DEBUGINFO_TYPE_DEBUGINFO_UNSPECIFIED\<rparr>
     (Inr \<lparr>sresp_ShouldInitiateUpload = True, sresp_Reason = ''new''\<rparr>)
     \<in> set (trace (fst (run demo_env ''upload <path>'' demo_flags))) \<and>
   Call_MarkUploadFinished
     \<lparr>mreq_BuildId = ''abc'', mreq_UploadId = ''upload-1'', mreq_Type = DEBUGINFO_TYPE_DEBUGINFO_UNSPECIFIED\<rparr>
     None
     \<in> set (trace (fst (run demo_env ''upload <path>'' demo_flags))) \<and>
   ''debuginfo'' \<noteq> ''executable'' \<and> ''debuginfo'' \<noteq> ''sources'' \<and>
   debuginfoTypeStringToPb ''debuginfo'' = DEBUGINFO_TYPE_DEBUGINFO_UNSPECIFIED"
  using default_kind_is_sent_unspecified
  by (simp add: run_defs demo_defs Let_def)

end
